theory Spec2Isabelle
  imports Main "HOL-Library.List_Lexorder" "HOL-Library.Char_ord" "HOL-Library.Multiset"
begin

section \<open>Python values, exceptions and comparison\<close>

text \<open>
  The exceptions the modelled code raises. \<open>ValueError\<close> carries the message, because
  \<open>_Select.get_unique\<close> tells its two failures apart by the message only.
\<close>

datatype error =
    TypeError
  | ValueError string
  | KeyError
  | IndexError
  | NameError
  | AttributeError
  | OverflowError

text \<open>
  The Python values that flow through the query code: integers, strings, plain tuples and
  instances of \<open>NonLogicalSymbol\<close> sub-classes (predicates, i.e. facts, and complex
  terms). \<open>NlsV c vs\<close> is an instance of the class \<open>c\<close> whose field values, in declaration
  order, are \<open>vs\<close> (the \<open>_term_values\<close> of the instance).
\<close>

datatype val =
    IntV int
  | StrV string
  | TupV "val list"
  | NlsV string "val list"

datatype pytype = IntT | StrT | TupleT | ClassT string

fun py_type :: "val \<Rightarrow> pytype" where
  "py_type (IntV _) = IntT"
| "py_type (StrV _) = StrT"
| "py_type (TupV _) = TupleT"
| "py_type (NlsV c _) = ClassT c"

fun isinstance_NonLogicalSymbol :: "val \<Rightarrow> bool" where
  "isinstance_NonLogicalSymbol (NlsV _ _) = True"
| "isinstance_NonLogicalSymbol _ = False"

fun isinstance_tuple :: "val \<Rightarrow> bool" where
  "isinstance_tuple (TupV _) = True"
| "isinstance_tuple _ = False"

text \<open>
  Python's \<open><\<close> on values. Integers compare numerically and strings and tuples
  lexicographically; \<open>NonLogicalSymbol.__lt__\<close> compares the fields in order
  (\<open>if selfv == otherv: continue; return selfv < otherv\<close>). Between values of different
  Python types \<open><\<close> raises \<open>TypeError\<close>: the code compares through \<open>py_compop\<close> below, which
  asks this order only for two values of one type. The rank by type of the last clause
  of \<open>val_lt\<close> is there to make the order of the type class total.
\<close>

fun rank :: "val \<Rightarrow> nat" where
  "rank (IntV _) = 0"
| "rank (StrV _) = 1"
| "rank (TupV _) = 2"
| "rank (NlsV _ _) = 3"

fun val_lt :: "val \<Rightarrow> val \<Rightarrow> bool" and vals_lt :: "val list \<Rightarrow> val list \<Rightarrow> bool" where
  "val_lt (IntV a) (IntV b) = (a < b)"
| "val_lt (StrV a) (StrV b) = (a < b)"
| "val_lt (TupV a) (TupV b) = vals_lt a b"
| "val_lt (NlsV c a) (NlsV d b) = (if c = d then vals_lt a b else c < d)"
| "val_lt x y = (rank x < rank y)"
| "vals_lt [] [] = False"
| "vals_lt [] (y # ys) = True"
| "vals_lt (x # xs) [] = False"
| "vals_lt (x # xs) (y # ys) = (if x = y then vals_lt xs ys else val_lt x y)"

lemma vals_lt_irrefl_aux: "(\<And>x. x \<in> set xs \<Longrightarrow> \<not> val_lt x x) \<Longrightarrow> \<not> vals_lt xs xs"
  by (induction xs) auto

lemma val_lt_irrefl: "\<not> val_lt x x"
  by (induction x) (auto simp: vals_lt_irrefl_aux)

lemma vals_lt_total_aux:
  "(\<And>x y. x \<in> set xs \<Longrightarrow> x \<noteq> y \<Longrightarrow> val_lt x y \<or> val_lt y x) \<Longrightarrow>
   xs \<noteq> ys \<Longrightarrow> vals_lt xs ys \<or> vals_lt ys xs"
proof (induction xs arbitrary: ys)
  case Nil
  then show ?case by (cases ys) auto
next
  case (Cons x xs)
  then show ?case by (cases ys) auto
qed

lemma val_lt_total: "x \<noteq> y \<Longrightarrow> val_lt x y \<or> val_lt y x"
proof (induction x arbitrary: y)
  case (IntV a)
  then show ?case by (cases y) auto
next
  case (StrV a)
  then show ?case by (cases y) auto
next
  case (TupV xs)
  then show ?case using vals_lt_total_aux[of xs] by (cases y) auto
next
  case (NlsV c xs)
  then show ?case using vals_lt_total_aux[of xs] by (cases y) auto
qed

lemma vals_lt_trans_aux:
  "(\<And>x y z. x \<in> set xs \<Longrightarrow> val_lt x y \<Longrightarrow> val_lt y z \<Longrightarrow> val_lt x z) \<Longrightarrow>
   vals_lt xs ys \<Longrightarrow> vals_lt ys zs \<Longrightarrow> vals_lt xs zs"
proof (induction xs arbitrary: ys zs)
  case Nil
  then show ?case by (cases ys; cases zs) auto
next
  case (Cons x xs)
  show ?case
  proof (cases ys)
    case Nil
    with Cons.prems show ?thesis by simp
  next
    case yc: (Cons y ys')
    show ?thesis
    proof (cases zs)
      case Nil
      with Cons.prems yc show ?thesis by simp
    next
      case zc: (Cons z zs')
      have tr: "\<And>b c. val_lt x b \<Longrightarrow> val_lt b c \<Longrightarrow> val_lt x c"
        using Cons.prems(1) by simp
      have ih: "vals_lt xs ys' \<Longrightarrow> vals_lt ys' zs' \<Longrightarrow> vals_lt xs zs'"
        using Cons.IH[of ys' zs'] Cons.prems(1) by simp
      from Cons.prems(2,3) yc zc show ?thesis
        using tr ih val_lt_irrefl by (auto split: if_splits)
    qed
  qed
qed

lemma val_lt_trans: "val_lt x y \<Longrightarrow> val_lt y z \<Longrightarrow> val_lt x z"
proof (induction x arbitrary: y z)
  case (IntV a)
  then show ?case by (cases y; cases z) auto
next
  case (StrV a)
  then show ?case by (cases y; cases z) auto
next
  case (TupV xs)
  have aux: "\<And>ys zs. vals_lt xs ys \<Longrightarrow> vals_lt ys zs \<Longrightarrow> vals_lt xs zs"
    using vals_lt_trans_aux[of xs] TupV.IH by blast
  from TupV.prems show ?case
    by (cases y; cases z) (simp_all, erule (1) aux)
next
  case (NlsV c xs)
  have aux: "\<And>ys zs. vals_lt xs ys \<Longrightarrow> vals_lt ys zs \<Longrightarrow> vals_lt xs zs"
    using vals_lt_trans_aux[of xs] NlsV.IH by blast
  from NlsV.prems show ?case
    by (cases y; cases z) (auto split: if_splits intro: aux)
qed

instantiation val :: linorder
begin

definition less_val :: "val \<Rightarrow> val \<Rightarrow> bool" where
  "less_val x y = val_lt x y"

definition less_eq_val :: "val \<Rightarrow> val \<Rightarrow> bool" where
  "less_eq_val x y = (x = y \<or> val_lt x y)"

instance
proof
  fix x y z :: val
  show "(x < y) = (x \<le> y \<and> \<not> y \<le> x)"
    unfolding less_val_def less_eq_val_def using val_lt_irrefl val_lt_trans by blast
  show "x \<le> x"
    unfolding less_eq_val_def by simp
  show "x \<le> y \<Longrightarrow> y \<le> z \<Longrightarrow> x \<le> z"
    unfolding less_eq_val_def using val_lt_trans by blast
  show "x \<le> y \<Longrightarrow> y \<le> x \<Longrightarrow> x = y"
    unfolding less_eq_val_def using val_lt_irrefl val_lt_trans by blast
  show "x \<le> y \<or> y \<le> x"
    unfolding less_eq_val_def using val_lt_total by blast
qed

end

text \<open>
  The comparison operators of module \<open>operator\<close> as the query code applies them
  (\<open>self._compop(v1, v2)\<close>). Between values of different Python types \<open>==\<close> is false,
  \<open>!=\<close> is true and an ordering comparison raises \<open>TypeError\<close>.
\<close>

datatype compop = Eq | Ne | Lt | Le | Gt | Ge

fun compop_holds :: "compop \<Rightarrow> val \<Rightarrow> val \<Rightarrow> bool" where
  "compop_holds Eq a b = (a = b)"
| "compop_holds Ne a b = (a \<noteq> b)"
| "compop_holds Lt a b = (a < b)"
| "compop_holds Le a b = (a \<le> b)"
| "compop_holds Gt a b = (b < a)"
| "compop_holds Ge a b = (b \<le> a)"

fun py_compop :: "compop \<Rightarrow> val \<Rightarrow> val \<Rightarrow> error + bool" where
  "py_compop op a b =
     (if py_type a = py_type b then Inr (compop_holds op a b)
      else if op = Eq then Inr False
      else if op = Ne then Inr True
      else Inl TypeError)"

text \<open>Truth value of a Python object (\<open>NonLogicalSymbol.__bool__\<close> is \<open>len(self.meta) > 0\<close>).\<close>

fun py_bool :: "val \<Rightarrow> bool" where
  "py_bool (IntV i) = (i \<noteq> 0)"
| "py_bool (StrV s) = (s \<noteq> [])"
| "py_bool (TupV vs) = (vs \<noteq> [])"
| "py_bool (NlsV c vs) = (vs \<noteq> [])"

section \<open>Field definitions and field paths\<close>

text \<open>
  The \<open>RawField\<close> sub-classes that define a field. \<open>ComplexField c\<close> is the field class
  \<open>c.Field\<close> generated for the \<open>NonLogicalSymbol\<close> sub-class \<open>c\<close>; its \<open>complex\<close> property
  is \<open>c\<close>, and \<open>None\<close> for the simple fields.
\<close>

datatype fdefn = IntegerField | StringField | ConstantField | ComplexField string

fun complex :: "fdefn \<Rightarrow> string option" where
  "complex (ComplexField c) = Some c"
| "complex _ = None"

text \<open>
  A \<open>FieldPath\<close> in canonical form: the chain of \<open>FieldPathLink(defn, key)\<close>, where the key
  of the last link is \<open>None\<close>. Keys are field positions (the source canonicalises a
  position or a name to the name; the positions stand for the names here). Two paths are
  equal when their canonical chains are.
\<close>

type_synonym fieldpath = "(fdefn \<times> nat option) list"

definition predicate :: "fieldpath \<Rightarrow> string option" where
  "predicate fp = (case fp of [] \<Rightarrow> None | (defn, key) # _ \<Rightarrow> complex defn)"

definition defn :: "fieldpath \<Rightarrow> fdefn option" where
  "defn fp = (case fp of [] \<Rightarrow> None | _ \<Rightarrow> Some (fst (last fp)))"

text \<open>
  \<open>NonLogicalSymbol.__getitem__(value, key)\<close>: the value of the field at position \<open>key\<close>.
  A value that is no \<open>NonLogicalSymbol\<close> has no \<open>meta\<close>, and a position past the last
  field is an \<open>IndexError\<close>.
\<close>

fun nls_getitem :: "val \<Rightarrow> nat \<Rightarrow> error + val" where
  "nls_getitem (NlsV c vs) idx = (if idx < length vs then Inr (vs ! idx) else Inl IndexError)"
| "nls_getitem _ idx = Inl AttributeError"

text \<open>\<open>_FieldPathEval.__call__\<close>: the loop over the links, then the type check before it.\<close>

fun fieldpath_walk :: "fieldpath \<Rightarrow> val \<Rightarrow> error + val" where
  "fieldpath_walk [] v = Inl (ValueError ''Internal error: invalid FPGet specification'')"
| "fieldpath_walk ((field, None) # rest) v = Inr v"
| "fieldpath_walk ((field, Some key) # rest) v =
     (case complex field of
        None \<Rightarrow> Inl AttributeError
      | Some c \<Rightarrow>
          (case nls_getitem v key of
             Inl e \<Rightarrow> Inl e
           | Inr v' \<Rightarrow> fieldpath_walk rest v'))"

definition FieldPathEval :: "fieldpath \<Rightarrow> val \<Rightarrow> error + val" where
  "FieldPathEval fpspec f =
     (if Some (py_type f) \<noteq> map_option ClassT (predicate fpspec) then Inl TypeError
      else fieldpath_walk fpspec f)"

section \<open>Class definitions and the constructor of a complex term\<close>

text \<open>
  \<open>NLSDefn\<close>: the meta data of a \<open>NonLogicalSymbol\<close> sub-class, its predicate name and its
  fields in declaration order. A schema maps a class to its definition. Field defaults
  (\<open>RawField(default=...)\<close>) are not modelled: no field has one.
\<close>

record NLSDefn =
  nls_name :: string
  nls_fields :: "fdefn list"

type_synonym schema = "string \<rightharpoonup> NLSDefn"

text \<open>
  \<open>field.defn.pytocl(v)\<close>, called by \<open>_generate_raw\<close> for each field: the simple fields
  hand the value to \<open>clingo.Number\<close>, \<open>clingo.String\<close> or \<open>clingo.Function\<close> (of the clingo
  library, outside the repository), which raise \<open>TypeError\<close> for a value of another Python
  type; \<open>clingo.Number\<close> takes a 32 bit signed integer and raises \<open>OverflowError\<close> for an
  integer outside that range. The field of a complex term accepts an instance of its
  class (a tuple has been converted by \<open>_preprocess_field_input\<close> before).
\<close>

fun pytocl :: "fdefn \<Rightarrow> val \<Rightarrow> error + unit" where
  "pytocl IntegerField (IntV i) =
     (if - (2 ^ 31) \<le> i \<and> i < 2 ^ 31 then Inr () else Inl OverflowError)"
| "pytocl IntegerField v = Inl TypeError"
| "pytocl StringField v = (if py_type v = StrT then Inr () else Inl TypeError)"
| "pytocl ConstantField v = (if py_type v = StrT then Inr () else Inl TypeError)"
| "pytocl (ComplexField c) v = (if py_type v = ClassT c then Inr () else Inl TypeError)"

fun generate_raw :: "fdefn list \<Rightarrow> val list \<Rightarrow> error + unit" where
  "generate_raw (fd # fds) (v # vs) =
     (case pytocl fd v of Inl e \<Rightarrow> Inl e | Inr _ \<Rightarrow> generate_raw fds vs)"
| "generate_raw _ _ = Inr ()"

text \<open>
  \<open>_nls_constructor(self, *args)\<close> for the class \<open>c\<close>, as the query code calls it (no
  keyword arguments). With no argument it takes the keyword branch, where every field
  needs a default; otherwise \<open>_nls_init_by_positional_values\<close> checks the arity, passes
  each argument through \<open>_preprocess_field_input\<close> (a tuple given for the field of a
  complex term becomes an instance of that term) and generates the raw symbol.
\<close>

fun nls_constructor :: "schema \<Rightarrow> string \<Rightarrow> val list \<Rightarrow> error + val"
  and preprocess_fields :: "schema \<Rightarrow> fdefn list \<Rightarrow> val list \<Rightarrow> error + val list"
  and preprocess_field_input :: "schema \<Rightarrow> fdefn \<Rightarrow> val \<Rightarrow> error + val" where
  "nls_constructor sch c args =
     (case sch c of
        None \<Rightarrow> Inl TypeError
      | Some d \<Rightarrow>
          if args = [] then
            (if nls_fields d = [] then Inr (NlsV c [])
             else Inl (ValueError ''Unspecified term has no default value''))
          else if length args \<noteq> length (nls_fields d) then
            Inl (ValueError ''Expected a different number of arguments'')
          else
            (case preprocess_fields sch (nls_fields d) args of
               Inl e \<Rightarrow> Inl e
             | Inr vs \<Rightarrow>
                 (case generate_raw (nls_fields d) vs of
                    Inl e \<Rightarrow> Inl e
                  | Inr _ \<Rightarrow> Inr (NlsV c vs))))"
| "preprocess_fields sch (fd # fds) (v # vs) =
     (case preprocess_field_input sch fd v of
        Inl e \<Rightarrow> Inl e
      | Inr v' \<Rightarrow>
          (case preprocess_fields sch fds vs of
             Inl e \<Rightarrow> Inl e
           | Inr vs' \<Rightarrow> Inr (v' # vs')))"
| "preprocess_fields sch [] vs = Inr []"
| "preprocess_fields sch (fd # fds) [] = Inr []"
| "preprocess_field_input sch fd (TupV xs) =
     (case complex fd of
        None \<Rightarrow> Inr (TupV xs)
      | Some c' \<Rightarrow>
          (case sch c' of
             None \<Rightarrow> Inl AttributeError
           | Some d' \<Rightarrow>
               if length xs \<noteq> length (nls_fields d') then
                 Inl (ValueError ''incorrect values to unpack'')
               else nls_constructor sch c' xs))"
| "preprocess_field_input sch fd (IntV i) = Inr (IntV i)"
| "preprocess_field_input sch fd (StrV s) = Inr (StrV s)"
| "preprocess_field_input sch fd (NlsV c vs) = Inr (NlsV c vs)"

text \<open>
  \<open>*v\<close> in a call: a tuple gives its elements, a \<open>NonLogicalSymbol\<close> its field values
  (it has \<open>__getitem__\<close> and \<open>__len__\<close>), a string its characters, and an integer is not
  iterable.
\<close>

fun py_unpack :: "val \<Rightarrow> error + val list" where
  "py_unpack (TupV vs) = Inr vs"
| "py_unpack (NlsV c vs) = Inr vs"
| "py_unpack (StrV s) = Inr (map (\<lambda>ch. StrV [ch]) s)"
| "py_unpack (IntV i) = Inl TypeError"

definition construct_from :: "schema \<Rightarrow> string \<Rightarrow> val \<Rightarrow> error + val" where
  "construct_from sch c v =
     (case py_unpack v of Inl e \<Rightarrow> Inl e | Inr args \<Rightarrow> nls_constructor sch c args)"

fun meta_name :: "schema \<Rightarrow> val \<Rightarrow> string option" where
  "meta_name sch (NlsV c vs) = map_option nls_name (sch c)"
| "meta_name sch _ = None"

section \<open>Fact comparators\<close>

text \<open>
  The second argument of a comparison: a plain value, a field path (\<open>_FieldPathEval\<close>), or a
  positional or named placeholder (the latter with its default, \<open>None\<close> when it has none).
\<close>

datatype arg =
    Lit val
  | FieldArg fieldpath
  | PositionalPlaceholder nat
  | NamedPlaceholder string "val option"

datatype boolop = NotOp | AndOp | OrOp

datatype comparator =
    StaticComparator bool
  | FieldQueryComparator compop fieldpath arg
  | BoolComparator boolop "comparator list"

text \<open>
  \<open>FieldQueryComparator.__init__\<close> sets \<open>_static\<close> when the second argument is a field
  path with the first argument's specification, and \<open>_value\<close> to \<open>compop(1, 1)\<close>.
\<close>

fun fqc_static :: "fieldpath \<Rightarrow> arg \<Rightarrow> bool" where
  "fqc_static arg1 (FieldArg arg2) = (arg1 = arg2)"
| "fqc_static arg1 _ = False"

definition fqc_value :: "compop \<Rightarrow> bool" where
  "fqc_value op = compop_holds op (IntV 1) (IntV 1)"

text \<open>\<open>BoolComparator.__init__\<close>: the checks on the number of arguments.\<close>

definition new_BoolComparator :: "boolop \<Rightarrow> comparator list \<Rightarrow> error + comparator" where
  "new_BoolComparator boolop args =
     (if boolop = NotOp \<and> length args \<noteq> 1 then Inl IndexError
      else if boolop \<noteq> NotOp \<and> length args \<le> 1 then Inl IndexError
      else Inr (BoolComparator boolop args))"

type_synonym kwargs = "string \<rightharpoonup> val"

text \<open>\<open>getargval\<close> of \<open>FieldQueryComparator.__call__\<close>.\<close>

fun getargval :: "arg \<Rightarrow> val \<Rightarrow> val list \<Rightarrow> kwargs \<Rightarrow> error + val" where
  "getargval (FieldArg p) f args kw = FieldPathEval p f"
| "getargval (PositionalPlaceholder posn) f args kw =
     (if posn < length args then Inr (args ! posn) else Inl IndexError)"
| "getargval (NamedPlaceholder n d) f args kw =
     (case kw n of None \<Rightarrow> Inl KeyError | Some v \<Rightarrow> Inr v)"
| "getargval (Lit v) f args kw = Inr v"

text \<open>
  The type check of \<open>FieldQueryComparator.__call__\<close>: when the types differ and the first
  value is a \<open>NonLogicalSymbol\<close>, a second value that is a \<open>NonLogicalSymbol\<close> of another
  predicate name is a \<open>TypeError\<close>, and otherwise the second value is converted with
  \<open>type(v1)(*v2)\<close>, any failure of which is a \<open>TypeError\<close>.
\<close>

definition tryconv :: "schema \<Rightarrow> val \<Rightarrow> val \<Rightarrow> error + val" where
  "tryconv sch v1 v2 =
     (if py_type v1 \<noteq> py_type v2 \<and> isinstance_NonLogicalSymbol v1 then
        (if isinstance_NonLogicalSymbol v2 \<and> meta_name sch v1 \<noteq> meta_name sch v2 then
           Inl TypeError
         else
           (case v1 of
              NlsV c vs \<Rightarrow>
                (case construct_from sch c v2 of
                   Inl e \<Rightarrow> Inl TypeError
                 | Inr v2' \<Rightarrow> Inr v2')
            | _ \<Rightarrow> Inr v2))
      else Inr v2)"

definition fqc_call ::
  "schema \<Rightarrow> compop \<Rightarrow> fieldpath \<Rightarrow> arg \<Rightarrow> val \<Rightarrow> val list \<Rightarrow> kwargs \<Rightarrow> error + bool" where
  "fqc_call sch op arg1 arg2 f args kw =
     (if fqc_static arg1 arg2 then Inr (fqc_value op)
      else
        (case FieldPathEval arg1 f of
           Inl e \<Rightarrow> Inl e
         | Inr v1 \<Rightarrow>
             (case getargval arg2 f args kw of
                Inl e \<Rightarrow> Inl e
              | Inr v2 \<Rightarrow>
                  (case tryconv sch v1 v2 of
                     Inl e \<Rightarrow> Inl e
                   | Inr v2' \<Rightarrow> py_compop op v1 v2'))))"

text \<open>\<open>__call__\<close> of the three comparator classes; \<open>and\<close> and \<open>or\<close> stop at the first
  argument that decides.\<close>

fun comparator_call ::
      "schema \<Rightarrow> comparator \<Rightarrow> val \<Rightarrow> val list \<Rightarrow> kwargs \<Rightarrow> error + bool"
  and and_loop :: "schema \<Rightarrow> comparator list \<Rightarrow> val \<Rightarrow> val list \<Rightarrow> kwargs \<Rightarrow> error + bool"
  and or_loop :: "schema \<Rightarrow> comparator list \<Rightarrow> val \<Rightarrow> val list \<Rightarrow> kwargs \<Rightarrow> error + bool" where
  "comparator_call sch (StaticComparator v) f args kw = Inr v"
| "comparator_call sch (FieldQueryComparator op arg1 arg2) f args kw =
     fqc_call sch op arg1 arg2 f args kw"
| "comparator_call sch (BoolComparator NotOp []) f args kw = Inl IndexError"
| "comparator_call sch (BoolComparator NotOp (a # as)) f args kw =
     (case comparator_call sch a f args kw of Inl e \<Rightarrow> Inl e | Inr b \<Rightarrow> Inr (\<not> b))"
| "comparator_call sch (BoolComparator AndOp as) f args kw = and_loop sch as f args kw"
| "comparator_call sch (BoolComparator OrOp as) f args kw = or_loop sch as f args kw"
| "and_loop sch [] f args kw = Inr True"
| "and_loop sch (a # as) f args kw =
     (case comparator_call sch a f args kw of
        Inl e \<Rightarrow> Inl e
      | Inr b \<Rightarrow> if \<not> b then Inr False else and_loop sch as f args kw)"
| "or_loop sch [] f args kw = Inr False"
| "or_loop sch (a # as) f args kw =
     (case comparator_call sch a f args kw of
        Inl e \<Rightarrow> Inl e
      | Inr b \<Rightarrow> if b then Inr True else or_loop sch as f args kw)"

text \<open>
  \<open>simplified()\<close> and \<open>_simplify_fact_comparator\<close>. \<open>StaticComparator\<close> has no method
  \<open>simplified\<close> (it defines \<open>simpified\<close>), so the call raises \<open>AttributeError\<close>, which
  \<open>_simplify_fact_comparator\<close> catches, returning the comparator itself. In the loop of
  \<open>BoolComparator.simplified\<close> a static argument of \<open>not\<close> returns at once
  (\<open>Inl\<close> below); for \<open>and\<close> and \<open>or\<close> the two statements \<open>sarg\<close> have no effect and the
  static argument is left out of \<open>newargs\<close>.
\<close>

fun simplified :: "comparator \<Rightarrow> error + comparator"
  and simplify_fact_comparator :: "comparator \<Rightarrow> comparator"
  and simplified_loop :: "boolop \<Rightarrow> comparator list \<Rightarrow> comparator list \<Rightarrow> comparator + comparator list" where
  "simplified (StaticComparator v) = Inl AttributeError"
| "simplified (FieldQueryComparator op arg1 arg2) =
     (if fqc_static arg1 arg2 then Inr (StaticComparator (fqc_value op))
      else Inr (FieldQueryComparator op arg1 arg2))"
| "simplified (BoolComparator boolop as) =
     (case simplified_loop boolop as [] of
        Inl early \<Rightarrow> Inr early
      | Inr newargs \<Rightarrow>
          if newargs = [] \<and> boolop = AndOp then Inr (StaticComparator True)
          else if newargs = [] \<and> boolop = OrOp then Inr (StaticComparator False)
          else if boolop \<noteq> NotOp \<and> length newargs = 1 then Inr (hd newargs)
          else new_BoolComparator boolop newargs)"
| "simplify_fact_comparator c = (case simplified c of Inr s \<Rightarrow> s | Inl e \<Rightarrow> c)"
| "simplified_loop boolop [] newargs = Inr newargs"
| "simplified_loop boolop (a # as) newargs =
     (case simplify_fact_comparator a of
        StaticComparator v \<Rightarrow>
          if boolop = NotOp then Inl (StaticComparator (\<not> v))
          else simplified_loop boolop as newargs
      | sarg \<Rightarrow> simplified_loop boolop as (newargs @ [sarg]))"

section \<open>Python sets, dictionaries and module bisect\<close>

text \<open>
  Python dictionaries keep insertion order; a dictionary whose order matters is an
  association list.
\<close>

fun dict_set :: "('k \<times> 'v) list \<Rightarrow> 'k \<Rightarrow> 'v \<Rightarrow> ('k \<times> 'v) list" where
  "dict_set [] k v = [(k, v)]"
| "dict_set ((k', v') # kvs) k v = (if k' = k then (k, v) # kvs else (k', v') # dict_set kvs k v)"

definition dict_keys :: "('k \<times> 'v) list \<Rightarrow> 'k list" where
  "dict_keys d = map fst d"

text \<open>
  A Python \<open>set\<close> is a list without duplicates; the list order is the order in which the
  set is iterated (Python leaves it unspecified). \<open>set.remove\<close> raises \<open>KeyError\<close> for a
  missing element, \<open>set.discard\<close> does not.
\<close>

definition set_add :: "'a list \<Rightarrow> 'a \<Rightarrow> 'a list" where
  "set_add xs x = (if x \<in> set xs then xs else xs @ [x])"

definition set_remove :: "'a list \<Rightarrow> 'a \<Rightarrow> error + 'a list" where
  "set_remove xs x = (if x \<in> set xs then Inr (removeAll x xs) else Inl KeyError)"

definition set_discard :: "'a list \<Rightarrow> 'a \<Rightarrow> 'a list" where
  "set_discard xs x = removeAll x xs"

definition set_union :: "'a list list \<Rightarrow> 'a list" where
  "set_union sets = remdups (concat sets)"

text \<open>
  \<open>bisect.bisect_left\<close>, \<open>bisect.bisect_right\<close> and \<open>bisect.insort_left\<close> of the standard
  library: the binary search
  \<open>while lo < hi: mid = (lo+hi)//2; if a[mid] < x: lo = mid+1 else: hi = mid\<close>
  (\<open>bisect_right\<close> tests \<open>x < a[mid]\<close> and moves \<open>hi\<close> when it holds), from \<open>lo = 0\<close> and
  \<open>hi = len(a)\<close>. A comparison of two values of different Python types raises
  \<open>TypeError\<close>, which ends the search.
\<close>

function bisect_left_loop :: "val list \<Rightarrow> val \<Rightarrow> nat \<Rightarrow> nat \<Rightarrow> error + nat" where
  "bisect_left_loop a x lo hi =
     (if lo < hi then
        (case py_compop Lt (a ! ((lo + hi) div 2)) x of
           Inl e \<Rightarrow> Inl e
         | Inr lt \<Rightarrow>
             if lt then bisect_left_loop a x ((lo + hi) div 2 + 1) hi
             else bisect_left_loop a x lo ((lo + hi) div 2))
      else Inr lo)"
  by pat_completeness auto
termination
  by (relation "measure (\<lambda>(a, x, lo, hi). hi - lo)") auto

function bisect_right_loop :: "val list \<Rightarrow> val \<Rightarrow> nat \<Rightarrow> nat \<Rightarrow> error + nat" where
  "bisect_right_loop a x lo hi =
     (if lo < hi then
        (case py_compop Lt x (a ! ((lo + hi) div 2)) of
           Inl e \<Rightarrow> Inl e
         | Inr lt \<Rightarrow>
             if lt then bisect_right_loop a x lo ((lo + hi) div 2)
             else bisect_right_loop a x ((lo + hi) div 2 + 1) hi)
      else Inr lo)"
  by pat_completeness auto
termination
  by (relation "measure (\<lambda>(a, x, lo, hi). hi - lo)") auto

declare bisect_left_loop.simps [simp del]

declare bisect_right_loop.simps [simp del]

definition bisect_left :: "val list \<Rightarrow> val \<Rightarrow> error + nat" where
  "bisect_left a x = bisect_left_loop a x 0 (length a)"

definition bisect_right :: "val list \<Rightarrow> val \<Rightarrow> error + nat" where
  "bisect_right a x = bisect_right_loop a x 0 (length a)"

text \<open>\<open>insort_left(a, x)\<close>: \<open>lo = bisect_left(a, x); a.insert(lo, x)\<close>.\<close>

definition insort_left :: "val list \<Rightarrow> val \<Rightarrow> error + val list" where
  "insort_left a x =
     (case bisect_left a x of
        Inl e \<Rightarrow> Inl e
      | Inr lo \<Rightarrow> Inr (take lo a @ [x] @ drop lo a))"

section \<open>The fact index\<close>

text \<open>
  Class \<open>_FactIndex\<close> (a leading underscore of a source name is written \<open>u_\<close>): the field
  path, the sorted list of keys and the dictionary from a key to the set of facts with
  that key. An operation returns the exception it raised, if any, with the state it
  left.
\<close>

record u_FactIndex =
  fpspec :: fieldpath
  keylist :: "val list"
  key2values :: "val \<rightharpoonup> val list"

definition new_FactIndex :: "fieldpath \<Rightarrow> u_FactIndex" where
  "new_FactIndex fp = \<lparr>fpspec = fp, keylist = [], key2values = Map.empty\<rparr>"

definition isinstance_predicate :: "fieldpath \<Rightarrow> val \<Rightarrow> bool" where
  "isinstance_predicate fp f = (Some (py_type f) = map_option ClassT (predicate fp))"

definition u_FactIndex_add :: "u_FactIndex \<Rightarrow> val \<Rightarrow> error option \<times> u_FactIndex" where
  "u_FactIndex_add ix f =
     (if \<not> isinstance_predicate (fpspec ix) f then (Some TypeError, ix)
      else
        (case FieldPathEval (fpspec ix) f of
           Inl e \<Rightarrow> (Some e, ix)
         | Inr key \<Rightarrow>
             (let values = (case key2values ix key of None \<Rightarrow> [] | Some vs \<Rightarrow> vs);
                  ix1 = ix\<lparr>key2values := (key2values ix)(key \<mapsto> set_add values f)\<rparr>
              in case bisect_left (keylist ix) key of
                   Inl e \<Rightarrow> (Some e, ix1)
                 | Inr posn \<Rightarrow>
                     if length (keylist ix) > posn \<and> keylist ix ! posn = key then (None, ix1)
                     else
                       (case insort_left (keylist ix) key of
                          Inl e \<Rightarrow> (Some e, ix1)
                        | Inr kl \<Rightarrow> (None, ix1\<lparr>keylist := kl\<rparr>)))))"

definition u_FactIndex_remove ::
  "u_FactIndex \<Rightarrow> val \<Rightarrow> bool \<Rightarrow> error option \<times> u_FactIndex" where
  "u_FactIndex_remove ix f raise_on_missing =
     (if \<not> isinstance_predicate (fpspec ix) f then (Some TypeError, ix)
      else
        (case FieldPathEval (fpspec ix) f of
           Inl e \<Rightarrow> (Some e, ix)
         | Inr key \<Rightarrow>
             (case key2values ix key of
                None \<Rightarrow> (if raise_on_missing then (Some KeyError, ix) else (None, ix))
              | Some values \<Rightarrow>
                  (case (if raise_on_missing then set_remove values f
                         else Inr (set_discard values f)) of
                     Inl e \<Rightarrow> (Some e, ix)
                   | Inr values' \<Rightarrow>
                       if values' \<noteq> [] then
                         (None, ix\<lparr>key2values := (key2values ix)(key \<mapsto> values')\<rparr>)
                       else
                         (let ix1 = ix\<lparr>key2values := (key2values ix)(key := None)\<rparr>
                          in case bisect_left (keylist ix) key of
                               Inl e \<Rightarrow> (Some e, ix1)
                             | Inr posn \<Rightarrow>
                                 if posn < length (keylist ix) then
                                   (None, ix1\<lparr>keylist := take posn (keylist ix) @
                                                           drop (Suc posn) (keylist ix)\<rparr>)
                                 else (Some IndexError, ix1))))))"

definition u_FactIndex_discard :: "u_FactIndex \<Rightarrow> val \<Rightarrow> error option \<times> u_FactIndex" where
  "u_FactIndex_discard ix f = u_FactIndex_remove ix f False"


text \<open>
  The key selections of \<open>find\<close>. Each tests its position with \<open>if posn\<close>, which is false
  for position \<open>0\<close>; \<open>_keys_eq\<close> looks the key up in the dictionary and compares nothing.
\<close>

definition keys_eq :: "u_FactIndex \<Rightarrow> val \<Rightarrow> val list" where
  "keys_eq ix key = (if key2values ix key \<noteq> None then [key] else [])"

definition keys_ne :: "u_FactIndex \<Rightarrow> val \<Rightarrow> error + val list" where
  "keys_ne ix key =
     (case bisect_left (keylist ix) key of
        Inl e \<Rightarrow> Inl e
      | Inr posn1 \<Rightarrow>
          (let left = (if posn1 \<noteq> 0 then take posn1 (keylist ix) else [])
           in case bisect_right (keylist ix) key of
                Inl e \<Rightarrow> Inl e
              | Inr posn2 \<Rightarrow>
                  (let right = (if posn2 \<noteq> 0 then drop posn2 (keylist ix) else [])
                   in Inr (left @ right))))"

definition keys_lt :: "u_FactIndex \<Rightarrow> val \<Rightarrow> error + val list" where
  "keys_lt ix key =
     (case bisect_left (keylist ix) key of
        Inl e \<Rightarrow> Inl e
      | Inr posn \<Rightarrow> Inr (if posn \<noteq> 0 then take posn (keylist ix) else []))"

definition keys_le :: "u_FactIndex \<Rightarrow> val \<Rightarrow> error + val list" where
  "keys_le ix key =
     (case bisect_right (keylist ix) key of
        Inl e \<Rightarrow> Inl e
      | Inr posn \<Rightarrow> Inr (if posn \<noteq> 0 then take posn (keylist ix) else []))"

definition keys_gt :: "u_FactIndex \<Rightarrow> val \<Rightarrow> error + val list" where
  "keys_gt ix key =
     (case bisect_right (keylist ix) key of
        Inl e \<Rightarrow> Inl e
      | Inr posn \<Rightarrow> Inr (if posn \<noteq> 0 then drop posn (keylist ix) else []))"

definition keys_ge :: "u_FactIndex \<Rightarrow> val \<Rightarrow> error + val list" where
  "keys_ge ix key =
     (case bisect_left (keylist ix) key of
        Inl e \<Rightarrow> Inl e
      | Inr posn \<Rightarrow> Inr (if posn \<noteq> 0 then drop posn (keylist ix) else []))"

fun lookup_keys :: "(val \<rightharpoonup> val list) \<Rightarrow> val list \<Rightarrow> error + val list list" where
  "lookup_keys k2v [] = Inr []"
| "lookup_keys k2v (k # ks) =
     (case k2v k of
        None \<Rightarrow> Inl KeyError
      | Some vs \<Rightarrow> (case lookup_keys k2v ks of Inl e \<Rightarrow> Inl e | Inr sets \<Rightarrow> Inr (vs # sets)))"

fun find_keys :: "u_FactIndex \<Rightarrow> compop \<Rightarrow> val \<Rightarrow> error + val list" where
  "find_keys ix Eq key = Inr (keys_eq ix key)"
| "find_keys ix Ne key = keys_ne ix key"
| "find_keys ix Lt key = keys_lt ix key"
| "find_keys ix Le key = keys_le ix key"
| "find_keys ix Gt key = keys_gt ix key"
| "find_keys ix Ge key = keys_ge ix key"

definition u_FactIndex_find :: "u_FactIndex \<Rightarrow> compop \<Rightarrow> val \<Rightarrow> error + val list" where
  "u_FactIndex_find ix op key =
     (case find_keys ix op key of
        Inl e \<Rightarrow> Inl e
      | Inr keys \<Rightarrow>
          (case lookup_keys (key2values ix) keys of
             Inl e \<Rightarrow> Inl e
           | Inr sets \<Rightarrow> if sets = [] then Inr [] else Inr (set_union sets)))"

section \<open>The fact map\<close>

text \<open>
  Class \<open>_FactMap\<close>: the predicate type, the set of all facts and the indexes, an
  \<open>OrderedDict\<close> from the field path to its \<open>_FactIndex\<close> in the order the paths were
  declared (\<open>None\<close>, when no index is declared, is the empty list).
\<close>

record u_FactMap =
  ptype :: string
  allfacts :: "val list"
  findexes :: "(fieldpath \<times> u_FactIndex) list"

definition new_FactMap :: "string \<Rightarrow> fieldpath list \<Rightarrow> error + u_FactMap" where
  "new_FactMap pt index =
     (if index \<noteq> [] \<and> \<not> list_all (\<lambda>fp. predicate fp = Some pt) index then Inl TypeError
      else Inr \<lparr>ptype = pt, allfacts = [],
                findexes = foldl (\<lambda>d fp. dict_set d fp (new_FactIndex fp)) [] index\<rparr>)"

text \<open>The loop \<open>for findex in self._findexes.values(): ...\<close>, which stops at an exception.\<close>

fun findexes_loop ::
  "(u_FactIndex \<Rightarrow> error option \<times> u_FactIndex) \<Rightarrow> (fieldpath \<times> u_FactIndex) list \<Rightarrow>
   error option \<times> (fieldpath \<times> u_FactIndex) list" where
  "findexes_loop step [] = (None, [])"
| "findexes_loop step ((fp, ix) # rest) =
     (case step ix of
        (Some e, ix') \<Rightarrow> (Some e, (fp, ix') # rest)
      | (None, ix') \<Rightarrow>
          (case findexes_loop step rest of (r, rest') \<Rightarrow> (r, (fp, ix') # rest')))"

definition u_FactMap_add :: "u_FactMap \<Rightarrow> val \<Rightarrow> error option \<times> u_FactMap" where
  "u_FactMap_add fm f =
     (case findexes_loop (\<lambda>ix. u_FactIndex_add ix f) (findexes fm) of
        (r, ixs) \<Rightarrow> (r, fm\<lparr>allfacts := set_add (allfacts fm) f, findexes := ixs\<rparr>))"

definition u_FactMap_remove :: "u_FactMap \<Rightarrow> val \<Rightarrow> bool \<Rightarrow> error option \<times> u_FactMap" where
  "u_FactMap_remove fm f raise_on_missing =
     (case (if raise_on_missing then set_remove (allfacts fm) f
            else Inr (set_discard (allfacts fm) f)) of
        Inl e \<Rightarrow> (Some e, fm)
      | Inr fs \<Rightarrow>
          (case findexes_loop (\<lambda>ix. u_FactIndex_remove ix f raise_on_missing) (findexes fm) of
             (r, ixs) \<Rightarrow> (r, fm\<lparr>allfacts := fs, findexes := ixs\<rparr>)))"

definition u_FactMap_discard :: "u_FactMap \<Rightarrow> val \<Rightarrow> error option \<times> u_FactMap" where
  "u_FactMap_discard fm f = u_FactMap_remove fm f False"


definition indexes :: "u_FactMap \<Rightarrow> fieldpath list" where
  "indexes fm = map fst (findexes fm)"

definition get_factindex :: "u_FactMap \<Rightarrow> fieldpath \<Rightarrow> error + u_FactIndex" where
  "get_factindex fm field =
     (if findexes fm = [] then Inl TypeError
      else case map_of (findexes fm) field of None \<Rightarrow> Inl KeyError | Some ix \<Rightarrow> Inr ix)"

section \<open>Ordering of query results\<close>

text \<open>
  \<open>FieldOrderBy(fp, asc)\<close> and its \<open>compare\<close>; \<open>mycmp\<close> of \<open>_Select.order_by\<close> returns the
  first comparison that is not \<open>0\<close>.
\<close>

datatype FieldOrderBy = FieldOrderBy fieldpath bool

fun compare :: "FieldOrderBy \<Rightarrow> val \<Rightarrow> val \<Rightarrow> error + int" where
  "compare (FieldOrderBy fp asc) a b =
     (case FieldPathEval fp a of
        Inl e \<Rightarrow> Inl e
      | Inr va \<Rightarrow>
          (case FieldPathEval fp b of
             Inl e \<Rightarrow> Inl e
           | Inr vb \<Rightarrow>
               (case py_compop Eq va vb of
                  Inl e \<Rightarrow> Inl e
                | Inr eq \<Rightarrow>
                    if eq then Inr 0
                    else if asc then
                      (case py_compop Lt va vb of
                         Inl e \<Rightarrow> Inl e
                       | Inr lt \<Rightarrow> if lt then Inr (- 1) else Inr 1)
                    else
                      (case py_compop Gt va vb of
                         Inl e \<Rightarrow> Inl e
                       | Inr gt \<Rightarrow> if gt then Inr (- 1) else Inr 1))))"

fun mycmp :: "FieldOrderBy list \<Rightarrow> val \<Rightarrow> val \<Rightarrow> error + int" where
  "mycmp [] a b = Inr 0"
| "mycmp (ford # field_orders) a b =
     (case compare ford a b of
        Inl e \<Rightarrow> Inl e
      | Inr v \<Rightarrow> if v = 0 then mycmp field_orders a b else Inr v)"

text \<open>
  \<open>result.sort(key=functools.cmp_to_key(mycmp))\<close>. Python's sort is stable and compares
  two elements only with \<open><\<close>, which \<open>cmp_to_key\<close> defines as \<open>mycmp(a, b) < 0\<close>; it is
  modelled by the insertion sort with these two properties, an element going behind the
  earlier elements that are not greater. An exception of a comparison ends the sort.
\<close>

fun insort_cmp :: "(val \<Rightarrow> val \<Rightarrow> error + int) \<Rightarrow> val \<Rightarrow> val list \<Rightarrow> error + val list" where
  "insort_cmp cmp x [] = Inr [x]"
| "insort_cmp cmp x (y # ys) =
     (case cmp y x of
        Inl e \<Rightarrow> Inl e
      | Inr c \<Rightarrow>
          if c < 0 then
            (case insort_cmp cmp x ys of Inl e \<Rightarrow> Inl e | Inr r \<Rightarrow> Inr (y # r))
          else Inr (x # y # ys))"

fun py_sort :: "(val \<Rightarrow> val \<Rightarrow> error + int) \<Rightarrow> val list \<Rightarrow> error + val list" where
  "py_sort cmp [] = Inr []"
| "py_sort cmp (x # xs) =
     (case py_sort cmp xs of Inl e \<Rightarrow> Inl e | Inr r \<Rightarrow> insort_cmp cmp x r)"

text \<open>
  The records an ordering is applied to are facts of the predicate its paths belong to:
  every path resolves on such a record, to a value of the Python type of the path's
  field (the one \<open>pytocl\<close> of the field accepts). On them no comparison raises.
\<close>

fun resolves_order :: "FieldOrderBy \<Rightarrow> val \<Rightarrow> bool" where
  "resolves_order (FieldOrderBy fp asc) x =
     (case FieldPathEval fp x of
        Inl e \<Rightarrow> False
      | Inr v \<Rightarrow> (case defn fp of None \<Rightarrow> False | Some d \<Rightarrow> pytocl d v = Inr ()))"

definition resolves :: "FieldOrderBy list \<Rightarrow> val \<Rightarrow> bool" where
  "resolves field_orders x = list_all (\<lambda>ford. resolves_order ford x) field_orders"

section \<open>Select and delete queries over a fact map\<close>

text \<open>
  \<open>_Select\<close>: the simplified where clause, the indexable comparison chosen for it and the
  ordering, each \<open>None\<close> until set. The fact map, which the object references, is passed
  to each operation.
\<close>

type_synonym indexable = "fieldpath \<times> compop \<times> arg"

record u_Select =
  s_where :: "comparator option"
  s_indexable :: "indexable option"
  s_key :: "FieldOrderBy list option"

definition new_Select :: u_Select where
  "new_Select = \<lparr>s_where = None, s_indexable = None, s_key = None\<rparr>"

text \<open>
  \<open>self._index_priority = { f:p for (p,f) in enumerate(factmap.indexes) }\<close>: a later
  entry for the same path replaces an earlier one.
\<close>

definition index_priority :: "fieldpath list \<Rightarrow> (fieldpath \<rightharpoonup> nat)" where
  "index_priority ixs = map_of (rev (zip ixs [0..<length ixs]))"

text \<open>
  \<open>FieldQueryComparator.indexable\<close>: \<open>None\<close> for a static comparator and for a second
  argument that is a field path.
\<close>

fun fqc_indexable :: "compop \<Rightarrow> fieldpath \<Rightarrow> arg \<Rightarrow> indexable option" where
  "fqc_indexable op arg1 (FieldArg arg2) = None"
| "fqc_indexable op arg1 arg2 = (if fqc_static arg1 arg2 then None else Some (arg1, op, arg2))"

text \<open>
  \<open>_Select._primary_search\<close> with its local \<open>validate_indexable\<close>. The two dictionary
  reads in the comparison of priorities raise \<open>KeyError\<close> for a path without priority.
\<close>

fun validate_indexable :: "(fieldpath \<rightharpoonup> nat) \<Rightarrow> indexable option \<Rightarrow> indexable option" where
  "validate_indexable prio None = None"
| "validate_indexable prio (Some (fp, op, a)) =
     (if prio fp = None then None else Some (fp, op, a))"

fun primary_search :: "(fieldpath \<rightharpoonup> nat) \<Rightarrow> comparator \<Rightarrow> error + indexable option"
  and primary_search_loop ::
    "(fieldpath \<rightharpoonup> nat) \<Rightarrow> comparator list \<Rightarrow> indexable option \<Rightarrow> error + indexable option" where
  "primary_search prio (FieldQueryComparator op arg1 arg2) =
     Inr (validate_indexable prio (fqc_indexable op arg1 arg2))"
| "primary_search prio (BoolComparator boolop as) =
     (if boolop = AndOp then primary_search_loop prio as None else Inr None)"
| "primary_search prio (StaticComparator v) = Inr None"
| "primary_search_loop prio [] indexable = Inr indexable"
| "primary_search_loop prio (a # as) indexable =
     (case primary_search prio a of
        Inl e \<Rightarrow> Inl e
      | Inr None \<Rightarrow> primary_search_loop prio as indexable
      | Inr (Some tmp) \<Rightarrow>
          (case indexable of
             None \<Rightarrow> primary_search_loop prio as (Some tmp)
           | Some cur \<Rightarrow>
               (case (prio (fst tmp), prio (fst cur)) of
                  (Some pt, Some pc) \<Rightarrow>
                    if pt < pc then primary_search_loop prio as (Some tmp)
                    else primary_search_loop prio as (Some cur)
                | _ \<Rightarrow> Inl KeyError)))"

text \<open>\<open>_Select.where\<close> and \<open>_Select.order_by\<close>.\<close>

definition u_Select_where :: "u_FactMap \<Rightarrow> u_Select \<Rightarrow> comparator list \<Rightarrow> error + u_Select" where
  "u_Select_where fm sel expressions =
     (if s_where sel \<noteq> None then Inl (ValueError ''cannot specify where multiple times'')
      else if expressions = [] then Inl (ValueError ''empty where expression'')
      else
        (let w = (if length expressions = 1 then simplify_fact_comparator (hd expressions)
                  else simplify_fact_comparator (BoolComparator AndOp expressions))
         in case primary_search (index_priority (indexes fm)) w of
              Inl e \<Rightarrow> Inl e
            | Inr ix \<Rightarrow> Inr (sel\<lparr>s_where := Some w, s_indexable := ix\<rparr>)))"

definition u_Select_order_by :: "u_Select \<Rightarrow> FieldOrderBy list \<Rightarrow> error + u_Select" where
  "u_Select_order_by sel expressions =
     (if s_key sel \<noteq> None then Inl (ValueError ''cannot specify order_by multiple times'')
      else if expressions = [] then Inl (ValueError ''empty order_by expression'')
      else Inr (sel\<lparr>s_key := Some expressions\<rparr>))"

text \<open>\<open>placeholders()\<close> of the comparators and \<open>_Select._resolve_arguments\<close>.\<close>

fun placeholders :: "comparator \<Rightarrow> arg list" where
  "placeholders (StaticComparator v) = []"
| "placeholders (FieldQueryComparator op arg1 (PositionalPlaceholder posn)) =
     [PositionalPlaceholder posn]"
| "placeholders (FieldQueryComparator op arg1 (NamedPlaceholder n d)) = [NamedPlaceholder n d]"
| "placeholders (FieldQueryComparator op arg1 arg2) = []"
| "placeholders (BoolComparator boolop as) = concat (map placeholders as)"

fun resolve_loop :: "arg list \<Rightarrow> val list \<Rightarrow> kwargs \<Rightarrow> kwargs \<Rightarrow> error + kwargs" where
  "resolve_loop [] args kw new_kwargs = Inr new_kwargs"
| "resolve_loop (PositionalPlaceholder posn # phs) args kw new_kwargs =
     (if posn < length args then resolve_loop phs args kw new_kwargs else Inl TypeError)"
| "resolve_loop (NamedPlaceholder n d # phs) args kw new_kwargs =
     (if kw n \<noteq> None then resolve_loop phs args kw new_kwargs
      else case d of
             Some v \<Rightarrow> resolve_loop phs args kw (new_kwargs(n \<mapsto> v))
           | None \<Rightarrow> Inl TypeError)"
| "resolve_loop (ph # phs) args kw new_kwargs = Inl TypeError"

text \<open>
  The result \<open>new_kwargs.update(kwargs)\<close> is \<open>new_kwargs ++ kwargs\<close>, which is \<open>kwargs\<close>
  when \<open>new_kwargs\<close> is empty.
\<close>

definition resolve_arguments :: "comparator option \<Rightarrow> val list \<Rightarrow> kwargs \<Rightarrow> error + kwargs" where
  "resolve_arguments w args kw =
     (case w of
        None \<Rightarrow> Inr kw
      | Some c \<Rightarrow>
          (case resolve_loop (placeholders c) args kw Map.empty of
             Inl e \<Rightarrow> Inl e
           | Inr new_kwargs \<Rightarrow> Inr (new_kwargs ++ kw)))"

text \<open>
  \<open>_Select.get\<close>: \<open>get_value\<close>, the loop that tests the where clause, the two branches.
  The argument of an indexable comparison is never a field path (\<open>indexable()\<close> returns
  \<open>None\<close> for one); the object \<open>get_value\<close> would return for it is no value of a key.
\<close>

fun get_value :: "arg \<Rightarrow> val list \<Rightarrow> kwargs \<Rightarrow> error + val" where
  "get_value (PositionalPlaceholder posn) args nkwargs =
     (if posn < length args then Inr (args ! posn) else Inl IndexError)"
| "get_value (NamedPlaceholder n d) args nkwargs =
     (case nkwargs n of None \<Rightarrow> Inl KeyError | Some v \<Rightarrow> Inr v)"
| "get_value (Lit v) args nkwargs = Inr v"
| "get_value (FieldArg p) args nkwargs = Inl TypeError"

fun where_loop :: "(val \<Rightarrow> error + bool) \<Rightarrow> val list \<Rightarrow> error + val list" where
  "where_loop w [] = Inr []"
| "where_loop w (f # fs) =
     (case w f of
        Inl e \<Rightarrow> Inl e
      | Inr b \<Rightarrow>
          (case where_loop w fs of
             Inl e \<Rightarrow> Inl e
           | Inr result \<Rightarrow> Inr (if b then f # result else result)))"

text \<open>
  The conversion of \<open>get\<close> before the index is searched:
  \<open>if cmplx and isinstance(value, tuple): value = cmplx(*value)\<close>, where an exception of the
  constructor is not caught.
\<close>

definition index_value :: "schema \<Rightarrow> u_FactIndex \<Rightarrow> val \<Rightarrow> error + val" where
  "index_value sch findex v =
     (case Option.bind (defn (fpspec findex)) complex of
        None \<Rightarrow> Inr v
      | Some cmplx \<Rightarrow> if isinstance_tuple v then construct_from sch cmplx v else Inr v)"

definition get_unsorted ::
  "schema \<Rightarrow> u_FactMap \<Rightarrow> u_Select \<Rightarrow> val list \<Rightarrow> kwargs \<Rightarrow> error + val list" where
  "get_unsorted sch fm sel args kw =
     (case resolve_arguments (s_where sel) args kw of
        Inl e \<Rightarrow> Inl e
      | Inr nkwargs \<Rightarrow>
          (case s_indexable sel of
             None \<Rightarrow>
               (case s_where sel of
                  None \<Rightarrow> Inr (allfacts fm)
                | Some w \<Rightarrow> where_loop (\<lambda>f. comparator_call sch w f args nkwargs) (allfacts fm))
           | Some (fp, op, a) \<Rightarrow>
               (case get_factindex fm fp of
                  Inl e \<Rightarrow> Inl e
                | Inr findex \<Rightarrow>
                    (case get_value a args nkwargs of
                       Inl e \<Rightarrow> Inl e
                     | Inr v \<Rightarrow>
                         (case index_value sch findex v of
                            Inl e \<Rightarrow> Inl e
                          | Inr v' \<Rightarrow>
                              (case u_FactIndex_find findex op v' of
                                 Inl e \<Rightarrow> Inl e
                               | Inr fs \<Rightarrow>
                                   (case s_where sel of
                                      None \<Rightarrow> if fs = [] then Inr [] else Inl TypeError
                                    | Some w \<Rightarrow>
                                        where_loop
                                          (\<lambda>f. comparator_call sch w f args nkwargs) fs)))))))"

definition u_Select_get ::
  "schema \<Rightarrow> u_FactMap \<Rightarrow> u_Select \<Rightarrow> val list \<Rightarrow> kwargs \<Rightarrow> error + val list" where
  "u_Select_get sch fm sel args kw =
     (case get_unsorted sch fm sel args kw of
        Inl e \<Rightarrow> Inl e
      | Inr result \<Rightarrow>
          (case s_key sel of
             None \<Rightarrow> Inr result
           | Some field_orders \<Rightarrow> py_sort (mycmp field_orders) result))"

text \<open>\<open>_Select.get_unique\<close> and \<open>_Select.count\<close>.\<close>

fun get_unique_loop :: "nat \<Rightarrow> val option \<Rightarrow> val list \<Rightarrow> error + nat \<times> val option" where
  "get_unique_loop cnt fa [] = Inr (cnt, fa)"
| "get_unique_loop cnt fa (f # fs) =
     (if cnt + 1 > 1 then Inl (ValueError ''Multiple facts found - exactly one expected'')
      else get_unique_loop (cnt + 1) (Some f) fs)"

definition u_Select_get_unique ::
  "schema \<Rightarrow> u_FactMap \<Rightarrow> u_Select \<Rightarrow> val list \<Rightarrow> kwargs \<Rightarrow> error + val option" where
  "u_Select_get_unique sch fm sel args kw =
     (case u_Select_get sch fm sel args kw of
        Inl e \<Rightarrow> Inl e
      | Inr result \<Rightarrow>
          (case get_unique_loop 0 None result of
             Inl e \<Rightarrow> Inl e
           | Inr (cnt, fa) \<Rightarrow>
               if cnt = 0 then Inl (ValueError ''No facts found - exactly one expected'')
               else Inr fa))"

definition u_Select_count ::
  "schema \<Rightarrow> u_FactMap \<Rightarrow> u_Select \<Rightarrow> val list \<Rightarrow> kwargs \<Rightarrow> error + nat" where
  "u_Select_count sch fm sel args kw =
     (case u_Select_get sch fm sel args kw of Inl e \<Rightarrow> Inl e | Inr result \<Rightarrow> Inr (length result))"



section \<open>The pre-filter as the specification describes it\<close>

text \<open>
  The specification's words for the choice of the pre-filter, to compare
  \<open>primary_search\<close> with: the candidates of a condition are its comparisons reached
  through \<open>and\<close> nodes only, whose right side is no field path and whose field path has a
  declared index; the position of a path is its place in the order of declaration; the
  chosen candidate is one of the earliest declared path, and there is none exactly when
  there is no candidate.
\<close>

fun declared_position :: "fieldpath list \<Rightarrow> fieldpath \<Rightarrow> nat" where
  "declared_position [] fp = 0"
| "declared_position (p # ps) fp = (if p = fp then 0 else Suc (declared_position ps fp))"

fun candidate_leaves :: "fieldpath list \<Rightarrow> comparator \<Rightarrow> indexable list" where
  "candidate_leaves ixs (StaticComparator v) = []"
| "candidate_leaves ixs (FieldQueryComparator op arg1 (FieldArg arg2)) = []"
| "candidate_leaves ixs (FieldQueryComparator op arg1 arg2) =
     (if arg1 \<in> set ixs then [(arg1, op, arg2)] else [])"
| "candidate_leaves ixs (BoolComparator boolop as) =
     (if boolop = AndOp then concat (map (candidate_leaves ixs) as) else [])"

definition earliest_candidate :: "fieldpath list \<Rightarrow> indexable list \<Rightarrow> indexable option \<Rightarrow> bool" where
  "earliest_candidate ixs cs r =
     (case r of
        None \<Rightarrow> cs = []
      | Some c \<Rightarrow> c \<in> set cs \<and> fst c \<in> set ixs \<and>
          list_all (\<lambda>c'. declared_position ixs (fst c) \<le> declared_position ixs (fst c')) cs)"

section \<open>orm.py: the fact base\<close>

text \<open>
  \<open>FactBase\<close> of orm.py, after its initialisation: the dictionary from a predicate type to
  its fact map.
\<close>

record FactBase =
  factmaps :: "(string \<times> u_FactMap) list"

definition FactBase_u_add_fact :: "FactBase \<Rightarrow> val \<Rightarrow> error option \<times> FactBase" where
  "FactBase_u_add_fact fb f =
     (case f of
        NlsV pt vs \<Rightarrow>
          (let fm = (case map_of (factmaps fb) pt of
                       None \<Rightarrow> \<lparr>ptype = pt, allfacts = [], findexes = []\<rparr>
                     | Some fm \<Rightarrow> fm)
           in case u_FactMap_add fm f of
                (r, fm') \<Rightarrow> (r, fb\<lparr>factmaps := dict_set (factmaps fb) pt fm'\<rparr>))
      | _ \<Rightarrow> (Some TypeError, fb))"

text \<open>
  \<open>FactBase._remove(self, fact, raise_on_missing)\<close>. Its body reads the name \<open>arg\<close>, which
  is neither a parameter nor a local of the function nor a name of the module: the names
  the body can read are those of \<open>u_remove_names\<close>. Past that test the function returns
  \<open>self._factmaps[ptype].delete()\<close>, a new delete query, and removes nothing.
\<close>

definition u_remove_names :: "val \<Rightarrow> (string \<rightharpoonup> val)" where
  "u_remove_names f = [''fact'' \<mapsto> f]"

fun factmap_of :: "FactBase \<Rightarrow> val \<Rightarrow> u_FactMap option" where
  "factmap_of fb (NlsV pt vs) = map_of (factmaps fb) pt"
| "factmap_of fb _ = None"

definition FactBase_u_remove :: "FactBase \<Rightarrow> val \<Rightarrow> bool \<Rightarrow> (error + u_Select) \<times> FactBase" where
  "FactBase_u_remove fb f raise_on_missing =
     (case u_remove_names f ''arg'' of
        None \<Rightarrow> (Inl NameError, fb)
      | Some arg \<Rightarrow>
          if \<not> isinstance_NonLogicalSymbol arg then (Inl KeyError, fb)
          else if factmap_of fb f = None then (Inl KeyError, fb)
          else (Inr new_Select, fb))"

definition FactBase_remove :: "FactBase \<Rightarrow> val \<Rightarrow> (error + u_Select) \<times> FactBase" where
  "FactBase_remove fb arg = FactBase_u_remove fb arg True"

definition FactBase_discard :: "FactBase \<Rightarrow> val \<Rightarrow> (error + u_Select) \<times> FactBase" where
  "FactBase_discard fb arg = FactBase_u_remove fb arg False"

definition FactBase_contains :: "FactBase \<Rightarrow> val \<Rightarrow> bool" where
  "FactBase_contains fb f =
     (case factmap_of fb f of None \<Rightarrow> False | Some fm \<Rightarrow> f \<in> set (allfacts fm))"

section \<open>factbase.py: terminal operations of the query API\<close>

text \<open>
  \<open>QueryExecutor\<close> (module \<open>query\<close>) is not among the sources; the operations below take
  the sequence \<open>qe.all()\<close> yields as the argument \<open>outs\<close>. The result \<open>None\<close> of type
  \<open>val option\<close> is Python's \<open>None\<close>.
\<close>

record qspec =
  roots :: nat
  join_given :: bool

definition check_join_called_first :: "qspec \<Rightarrow> error + unit" where
  "check_join_called_first q =
     (if \<not> join_given q \<and> roots q > 1
      then Inl (ValueError ''join must be specified before'') else Inr ())"

text \<open>
  The loop of \<open>QueryImpl.singleton\<close> and of \<open>SelectImpl.get_unique\<close>:
  \<open>for out in qe.all(): if found: raise ValueError(...); found = out\<close>, where \<open>if found\<close>
  tests the truth value of the element found so far.
\<close>

fun found_truthy :: "val option \<Rightarrow> bool" where
  "found_truthy None = False"
| "found_truthy (Some v) = py_bool v"

fun single_loop :: "val option \<Rightarrow> val list \<Rightarrow> error + val option" where
  "single_loop found [] = Inr found"
| "single_loop found (out # outs) =
     (if found_truthy found then Inl (ValueError ''Query returned more than a single element'')
      else single_loop (Some out) outs)"

definition QueryImpl_singleton :: "qspec \<Rightarrow> val list \<Rightarrow> error + val option" where
  "QueryImpl_singleton q outs =
     (case check_join_called_first q of
        Inl e \<Rightarrow> Inl e
      | Inr _ \<Rightarrow> single_loop None outs)"

definition SelectImpl_get_unique :: "val list \<Rightarrow> error + val option" where
  "SelectImpl_get_unique outs = single_loop None outs"

section \<open>factbase.py: set algebra of fact bases\<close>

text \<open>
  Modelled from the spec: the class \<open>FactMap\<close> of module \<open>factcontainers\<close>, which is not
  among the sources. A fact map is the fact set of one predicate type (unique facts, in
  insertion order) with its index configuration; \<open>symmetric_difference\<close> combines the
  fact sets and keeps the left-hand fact map's index configuration, and \<open>copy\<close> returns
  an equal fact map.
\<close>

record FactMap =
  fm_predicate :: string
  factset :: "val list"
  fm_indexes :: "fieldpath list"

definition FactMap_symmetric_difference :: "FactMap \<Rightarrow> FactMap \<Rightarrow> FactMap" where
  "FactMap_symmetric_difference a b =
     a\<lparr>factset := filter (\<lambda>f. f \<notin> set (factset b)) (factset a) @
                   filter (\<lambda>f. f \<notin> set (factset a)) (factset b)\<rparr>"

definition FactMap_copy :: "FactMap \<Rightarrow> FactMap" where
  "FactMap_copy fm = fm"

type_synonym FactBase2 = "(string \<times> FactMap) list"

text \<open>
  \<open>FactBase.symmetric_difference\<close>. The body of the loop over \<open>predicates\<close> for one
  predicate \<open>p\<close>: when \<open>p\<close> is in only one of the two fact bases, the assignment from
  \<open>other._factmaps[p]\<close> is not under an \<open>else\<close> and runs in both cases.
\<close>

definition symmetric_difference_step ::
  "FactBase2 \<Rightarrow> FactBase2 \<Rightarrow> FactBase2 \<Rightarrow> string \<Rightarrow> error + FactBase2" where
  "symmetric_difference_step self other fb p =
     (case (map_of self p, map_of other p) of
        (Some a, Some b) \<Rightarrow> Inr (dict_set fb p (FactMap_symmetric_difference a b))
      | (a, b) \<Rightarrow>
          (let fb1 = (case a of Some fm \<Rightarrow> dict_set fb p (FactMap_copy fm) | None \<Rightarrow> fb)
           in case b of
                None \<Rightarrow> Inl KeyError
              | Some fm \<Rightarrow> Inr (dict_set fb1 p (FactMap_copy fm))))"

fun symmetric_difference_loop ::
  "FactBase2 \<Rightarrow> FactBase2 \<Rightarrow> FactBase2 \<Rightarrow> string list \<Rightarrow> error + FactBase2" where
  "symmetric_difference_loop self other fb [] = Inr fb"
| "symmetric_difference_loop self other fb (p # ps) =
     (case symmetric_difference_step self other fb p of
        Inl e \<Rightarrow> Inl e
      | Inr fb' \<Rightarrow> symmetric_difference_loop self other fb' ps)"

definition symmetric_difference :: "FactBase2 \<Rightarrow> FactBase2 \<Rightarrow> error + FactBase2" where
  "symmetric_difference self other =
     symmetric_difference_loop self other []
       (remdups (dict_keys self @ dict_keys other))"

text \<open>The sibling \<open>FactBase.symmetric_difference_update\<close>, which updates \<open>self\<close> in place.\<close>

definition symmetric_difference_update_step :: "FactBase2 \<Rightarrow> FactBase2 \<Rightarrow> string \<Rightarrow> FactBase2" where
  "symmetric_difference_update_step self other p =
     (case (map_of self p, map_of other p) of
        (Some a, Some b) \<Rightarrow> dict_set self p (FactMap_symmetric_difference a b)
      | (a, Some b) \<Rightarrow> dict_set self p (FactMap_copy b)
      | (a, None) \<Rightarrow> self)"

definition symmetric_difference_update :: "FactBase2 \<Rightarrow> FactBase2 \<Rightarrow> FactBase2" where
  "symmetric_difference_update self other =
     foldl (\<lambda>s p. symmetric_difference_update_step s other p) self
       (remdups (dict_keys self @ dict_keys other))"

text \<open>The facts of a fact base, per predicate type.\<close>

definition facts_of :: "FactBase2 \<Rightarrow> string \<Rightarrow> val set" where
  "facts_of fb p = (case map_of fb p of None \<Rightarrow> {} | Some fm \<Rightarrow> set (factset fm))"

section \<open>The ordering as the specification describes it\<close>

text \<open>
  The key of a record under one entry of an ordering, and the direction of the entry.
\<close>

fun order_key :: "FieldOrderBy \<Rightarrow> val \<Rightarrow> val" where
  "order_key (FieldOrderBy fp asc) x = (case FieldPathEval fp x of Inl e \<Rightarrow> IntV 0 | Inr v \<Rightarrow> v)"

fun order_asc :: "FieldOrderBy \<Rightarrow> bool" where
  "order_asc (FieldOrderBy fp asc) = asc"

text \<open>
  The composite comparator: the first key on which two records differ decides, in the
  direction of that key, and records equal on all keys compare equal.
\<close>

fun keycmp :: "bool list \<Rightarrow> val list \<Rightarrow> val list \<Rightarrow> int" where
  "keycmp (asc # ascs) (va # vas) (vb # vbs) =
     (if va = vb then keycmp ascs vas vbs
      else if asc \<and> va < vb then - 1
      else if \<not> asc \<and> vb < va then - 1
      else 1)"
| "keycmp _ _ _ = 0"

definition composite_cmp :: "FieldOrderBy list \<Rightarrow> val \<Rightarrow> val \<Rightarrow> int" where
  "composite_cmp fos a b = keycmp (map order_asc fos) (map (\<lambda>fo. order_key fo a) fos)
                  (map (\<lambda>fo. order_key fo b) fos)"

text \<open>
  The stable sort by the composite comparator: a record goes behind the records that
  are smaller, and before the others.
\<close>

definition stable_insert :: "FieldOrderBy list \<Rightarrow> val \<Rightarrow> val list \<Rightarrow> val list" where
  "stable_insert fos x ys = takeWhile (\<lambda>y. composite_cmp fos y x < 0) ys @ x # dropWhile (\<lambda>y. composite_cmp fos y x < 0) ys"

definition stable_sort :: "FieldOrderBy list \<Rightarrow> val list \<Rightarrow> val list" where
  "stable_sort fos xs = foldr (stable_insert fos) xs []"

section \<open>Example data\<close>

text \<open>
  The predicate \<open>class F(Predicate): anum = IntegerField(); astr = StringField()\<close> of the
  tests, and the canonical paths of its two fields.
\<close>

definition sch_F :: schema where
  "sch_F = [''F'' \<mapsto> \<lparr>nls_name = ''f'', nls_fields = [IntegerField, StringField]\<rparr>]"

definition F_anum :: fieldpath where
  "F_anum = [(ComplexField ''F'', Some 0), (IntegerField, None)]"

definition F_astr :: fieldpath where
  "F_astr = [(ComplexField ''F'', Some 1), (StringField, None)]"

definition F :: "int \<Rightarrow> string \<Rightarrow> val" where
  "F n s = NlsV ''F'' [IntV n, StrV s]"

text \<open>
  A fact map of \<open>F\<close> holding the single fact \<open>F(5,"a")\<close>, without index and with an index
  on \<open>F.anum\<close>.
\<close>

definition fm_F5 :: u_FactMap where
  "fm_F5 = \<lparr>ptype = ''F'', allfacts = [F 5 ''a''], findexes = []\<rparr>"

definition ix_F5 :: u_FactIndex where
  "ix_F5 = \<lparr>fpspec = F_anum, keylist = [IntV 5], key2values = [IntV 5 \<mapsto> [F 5 ''a'']]\<rparr>"

definition fm_F5_indexed :: u_FactMap where
  "fm_F5_indexed = \<lparr>ptype = ''F'', allfacts = [F 5 ''a''], findexes = [(F_anum, ix_F5)]\<rparr>"

definition sel_gt3 :: u_Select where
  "sel_gt3 = \<lparr>s_where = Some (FieldQueryComparator Gt F_anum (Lit (IntV 3))),
              s_indexable = None, s_key = None\<rparr>"

definition sel_gt3_indexed :: u_Select where
  "sel_gt3_indexed = \<lparr>s_where = Some (FieldQueryComparator Gt F_anum (Lit (IntV 3))),
              s_indexable = Some (F_anum, Gt, Lit (IntV 3)), s_key = None\<rparr>"

text \<open>The condition \<open>and_(F.astr == "a", F.anum == 1)\<close>.\<close>

definition where_astr_anum :: comparator where
  "where_astr_anum = BoolComparator AndOp
     [FieldQueryComparator Eq F_astr (Lit (StrV ''a'')),
      FieldQueryComparator Eq F_anum (Lit (IntV 1))]"

text \<open>
  Four facts of \<open>F\<close>, the ordering \<open>order_by(F.anum.meta.desc(), F.astr)\<close>, a fact map without
  index that holds given facts and the select object with an ordering and no condition.
\<close>

definition facts4 :: "val list" where
  "facts4 = [F 1 ''b'', F 2 ''c'', F 1 ''a'', F 3 ''a'']"

definition order_desc_asc :: "FieldOrderBy list" where
  "order_desc_asc = [FieldOrderBy F_anum False, FieldOrderBy F_astr True]"

definition fm_facts :: "val list \<Rightarrow> u_FactMap" where
  "fm_facts fs = \<lparr>ptype = ''F'', allfacts = fs, findexes = []\<rparr>"

definition sel_order :: "FieldOrderBy list \<Rightarrow> u_Select" where
  "sel_order fos = \<lparr>s_where = None, s_indexable = None, s_key = Some fos\<rparr>"


text \<open>
  A predicate with a field that is a complex term:
  \<open>class P(ComplexTerm): a = IntegerField(); b = IntegerField()\<close> and
  \<open>class G(Predicate): apair = P.Field()\<close>, the path \<open>G.apair\<close>, the constructors of the two
  (\<open>P_term\<close>, \<open>G_fact\<close>), a fact map holding the single fact \<open>G(P(1,2))\<close>, without index and
  with an index on \<open>G.apair\<close>, and the select objects of \<open>where(G.apair op v)\<close> on the two.
\<close>

definition sch_G :: schema where
  "sch_G = [''P'' \<mapsto> \<lparr>nls_name = ''p'', nls_fields = [IntegerField, IntegerField]\<rparr>,
            ''G'' \<mapsto> \<lparr>nls_name = ''g'', nls_fields = [ComplexField ''P'']\<rparr>]"

definition G_apair :: fieldpath where
  "G_apair = [(ComplexField ''G'', Some 0), (ComplexField ''P'', None)]"

definition P_term :: "int \<Rightarrow> int \<Rightarrow> val" where
  "P_term a b = NlsV ''P'' [IntV a, IntV b]"

definition G_fact :: "val \<Rightarrow> val" where
  "G_fact p = NlsV ''G'' [p]"

definition ix_G12 :: u_FactIndex where
  "ix_G12 = \<lparr>fpspec = G_apair, keylist = [P_term 1 2], key2values = [P_term 1 2 \<mapsto> [G_fact (P_term 1 2)]]\<rparr>"

definition fm_G12 :: u_FactMap where
  "fm_G12 = \<lparr>ptype = ''G'', allfacts = [G_fact (P_term 1 2)], findexes = []\<rparr>"

definition fm_G12_indexed :: u_FactMap where
  "fm_G12_indexed = \<lparr>ptype = ''G'', allfacts = [G_fact (P_term 1 2)], findexes = [(G_apair, ix_G12)]\<rparr>"

definition sel_apair :: "compop \<Rightarrow> val \<Rightarrow> u_Select" where
  "sel_apair op v = \<lparr>s_where = Some (FieldQueryComparator op G_apair (Lit v)),
              s_indexable = None, s_key = None\<rparr>"

definition sel_apair_indexed :: "compop \<Rightarrow> val \<Rightarrow> u_Select" where
  "sel_apair_indexed op v = \<lparr>s_where = Some (FieldQueryComparator op G_apair (Lit v)),
              s_indexable = Some (G_apair, op, Lit v), s_key = None\<rparr>"

text \<open>
  A predicate with three fields,
  \<open>class H(Predicate): anum = IntegerField(); astr = StringField(); atag = StringField()\<close>,
  the paths of its first two fields, the ordering
  \<open>order_by(H.anum.meta.desc(), H.astr)\<close> and a fact map without index that holds given
  facts of \<open>H\<close>.
\<close>

definition sch_H :: schema where
  "sch_H = [''H'' \<mapsto> \<lparr>nls_name = ''h'', nls_fields = [IntegerField, StringField, StringField]\<rparr>]"

definition H_anum :: fieldpath where
  "H_anum = [(ComplexField ''H'', Some 0), (IntegerField, None)]"

definition H_astr :: fieldpath where
  "H_astr = [(ComplexField ''H'', Some 1), (StringField, None)]"

definition H_fact :: "int \<Rightarrow> string \<Rightarrow> string \<Rightarrow> val" where
  "H_fact n s t = NlsV ''H'' [IntV n, StrV s, StrV t]"

definition order_H :: "FieldOrderBy list" where
  "order_H = [FieldOrderBy H_anum False, FieldOrderBy H_astr True]"

definition fm_H :: "val list \<Rightarrow> u_FactMap" where
  "fm_H fs = \<lparr>ptype = ''H'', allfacts = fs, findexes = []\<rparr>"

section \<open>Bisection on a sorted list\<close>

text \<open>
  The insertion points in a sorted list: before, and after, the entries equal to \<open>x\<close>.
\<close>

definition insertion_left :: "'a::linorder list \<Rightarrow> 'a \<Rightarrow> nat" where
  "insertion_left a x = length (takeWhile (\<lambda>k. k < x) a)"











lemma bisect_left_nth_mem:
  "insertion_left xs x < length xs \<Longrightarrow> xs ! insertion_left xs x = x \<Longrightarrow> x \<in> set xs"
  by (metis nth_mem)









section \<open>The invariant of a fact map\<close>






section \<open>The removal of a fact keeps the invariant\<close>









lemma fst_comp_step: "fst \<circ> (\<lambda>(fp, ix). (fp, g ix)) = fst"
  by (auto simp: fun_eq_iff)

lemma map_fst_step: "map fst (map (\<lambda>(fp, ix). (fp, g ix)) ixs) = map fst ixs"
  by (simp add: fst_comp_step)


lemma fm_remove_missing:
  "f \<notin> set (allfacts fm) \<Longrightarrow> u_FactMap_remove fm f True = (Some KeyError, fm)"
  by (simp add: u_FactMap_remove_def set_remove_def)

section \<open>The search for the indexable comparison\<close>

lemma map_of_rev_distinct: "distinct (map fst xs) \<Longrightarrow> map_of (rev xs) = map_of xs"
  by (metis distinct_rev map_of_inject_set rev_map set_rev)

lemma map_of_zip_upt:
  "distinct ixs \<Longrightarrow> map_of (zip ixs [n..<n + length ixs]) fp =
     (if fp \<in> set ixs then Some (n + declared_position ixs fp) else None)"
proof (induction ixs arbitrary: n)
  case Nil
  then show ?case by simp
next
  case (Cons p ps)
  have "[n..<n + length (p # ps)] = n # [Suc n..<Suc n + length ps]"
    by (simp add: upt_rec)
  then show ?case using Cons.IH[of "Suc n"] Cons.prems by auto
qed

lemma index_priority_position:
  assumes "distinct ixs"
  shows "index_priority ixs fp = (if fp \<in> set ixs then Some (declared_position ixs fp) else None)"
proof -
  have "distinct (map fst (zip ixs [0..<length ixs]))" using assms by simp
  then have "index_priority ixs = map_of (zip ixs [0..<length ixs])"
    unfolding index_priority_def by (rule map_of_rev_distinct)
  then show ?thesis using map_of_zip_upt[OF assms, of 0 fp] by simp
qed

lemma candidate_leaf_fqc:
  "validate_indexable (index_priority ixs) (fqc_indexable op arg1 arg2) = r \<Longrightarrow> distinct ixs \<Longrightarrow>
   earliest_candidate ixs (candidate_leaves ixs (FieldQueryComparator op arg1 arg2)) r"
  by (cases arg2) (auto simp: earliest_candidate_def index_priority_position split: if_splits)

lemma earliest_candidate_None: "earliest_candidate ixs [] None"
  by (simp add: earliest_candidate_def)

lemma earliest_candidate_skip:
  "earliest_candidate ixs pre acc \<Longrightarrow> earliest_candidate ixs cs None \<Longrightarrow>
   earliest_candidate ixs (pre @ cs) acc"
  by (auto simp: earliest_candidate_def split: option.splits)

lemma earliest_candidate_first:
  "earliest_candidate ixs pre None \<Longrightarrow> earliest_candidate ixs cs (Some tmp) \<Longrightarrow>
   earliest_candidate ixs (pre @ cs) (Some tmp)"
  by (auto simp: earliest_candidate_def)

lemma earliest_candidate_better:
  assumes "earliest_candidate ixs pre (Some cur)" "earliest_candidate ixs cs (Some tmp)"
  shows "earliest_candidate ixs (pre @ cs)
     (if declared_position ixs (fst tmp) < declared_position ixs (fst cur) then Some tmp else Some cur)"
  using assms unfolding earliest_candidate_def list_all_iff by (auto; force)

lemma primary_search_loop_earliest:
  assumes d: "distinct ixs"
    and each: "\<And>a. a \<in> set as \<Longrightarrow> \<exists>r. primary_search (index_priority ixs) a = Inr r
             \<and> earliest_candidate ixs (candidate_leaves ixs a) r"
    and acc: "earliest_candidate ixs pre acc"
  shows "\<exists>r. primary_search_loop (index_priority ixs) as acc = Inr r
             \<and> earliest_candidate ixs (pre @ concat (map (candidate_leaves ixs) as)) r"
  using each acc
proof (induction as arbitrary: pre acc)
  case Nil
  then show ?case by simp
next
  case (Cons a as)
  from Cons.prems(1)[of a] obtain t where t: "primary_search (index_priority ixs) a = Inr t"
    and et: "earliest_candidate ixs (candidate_leaves ixs a) t" by auto
  have rest: "\<And>pre' acc'. earliest_candidate ixs pre' acc' \<Longrightarrow>
      \<exists>r. primary_search_loop (index_priority ixs) as acc' = Inr r
             \<and> earliest_candidate ixs (pre' @ concat (map (candidate_leaves ixs) as)) r"
    using Cons.IH Cons.prems(1) by simp
  show ?case
  proof (cases t)
    case None
    have "earliest_candidate ixs (pre @ candidate_leaves ixs a) acc"
      using earliest_candidate_skip[OF Cons.prems(2)] et None by simp
    from rest[OF this] show ?thesis using t None by simp
  next
    case (Some tmp)
    show ?thesis
    proof (cases acc)
      case None
      have "earliest_candidate ixs (pre @ candidate_leaves ixs a) (Some tmp)"
        using earliest_candidate_first Cons.prems(2) et None Some by simp
      from rest[OF this] show ?thesis using t None Some by simp
    next
      case cur: (Some cur)
      have pt: "index_priority ixs (fst tmp) = Some (declared_position ixs (fst tmp))"
        using et Some by (simp add: earliest_candidate_def index_priority_position[OF d])
      have pc: "index_priority ixs (fst cur) = Some (declared_position ixs (fst cur))"
        using Cons.prems(2) cur by (simp add: earliest_candidate_def index_priority_position[OF d])
      have e: "earliest_candidate ixs (pre @ candidate_leaves ixs a)
          (if declared_position ixs (fst tmp) < declared_position ixs (fst cur) then Some tmp else Some cur)"
        using earliest_candidate_better Cons.prems(2) et cur Some by simp
      from rest[OF e] show ?thesis using t cur Some pt pc by (auto split: if_splits)
    qed
  qed
qed

lemma primary_search_earliest_aux:
  assumes d: "distinct ixs"
  shows "\<exists>r. primary_search (index_priority ixs) w = Inr r
             \<and> earliest_candidate ixs (candidate_leaves ixs w) r"
proof (induction w)
  case (StaticComparator v)
  then show ?case by (simp add: earliest_candidate_def)
next
  case (FieldQueryComparator op arg1 arg2)
  then show ?case using candidate_leaf_fqc[OF refl d] by simp
next
  case (BoolComparator boolop as)
  show ?case
  proof (cases "boolop = AndOp")
    case True
    from primary_search_loop_earliest[OF d BoolComparator earliest_candidate_None, of as]
    show ?thesis using True by simp
  next
    case False
    then show ?thesis by (simp add: earliest_candidate_def)
  qed
qed

section \<open>The sort of the query results\<close>

lemma pytocl_same_type:
  "pytocl d v = Inr () \<Longrightarrow> pytocl d w = Inr () \<Longrightarrow> py_type v = py_type w"
  by (cases d; cases v; cases w) (auto split: if_splits)

lemma compare_resolved:
  "resolves_order ford a \<Longrightarrow> resolves_order ford b \<Longrightarrow>
   compare ford a b = Inr (keycmp [order_asc ford] [order_key ford a] [order_key ford b])"
proof (cases ford)
  case (FieldOrderBy fp asc)
  assume ra: "resolves_order ford a" and rb: "resolves_order ford b"
  from ra FieldOrderBy obtain va d where va: "FieldPathEval fp a = Inr va" "defn fp = Some d" "pytocl d va = Inr ()"
    by (auto split: sum.splits option.splits)
  from rb FieldOrderBy va(2) obtain vb where vb: "FieldPathEval fp b = Inr vb" "pytocl d vb = Inr ()"
    by (auto split: sum.splits option.splits)
  have "py_type va = py_type vb" using pytocl_same_type[OF va(3) vb(2)] .
  then show ?thesis using FieldOrderBy va(1) vb(1) by auto
qed

lemma mycmp_keycmp:
  "resolves fos a \<Longrightarrow> resolves fos b \<Longrightarrow>
   mycmp fos a b = Inr (keycmp (map order_asc fos) (map (\<lambda>fo. order_key fo a) fos)
                           (map (\<lambda>fo. order_key fo b) fos))"
proof (induction fos)
  case Nil
  then show ?case by simp
next
  case (Cons fo fos)
  then have r: "resolves_order fo a" "resolves_order fo b" "resolves fos a" "resolves fos b"
    by (simp_all add: resolves_def)
  show ?case using compare_resolved[OF r(1,2)] Cons.IH[OF r(3,4)] by auto
qed

lemma keycmp_refl: "keycmp ascs u u = 0"
proof (induction ascs arbitrary: u)
  case Nil
  then show ?case by simp
next
  case (Cons asc ascs)
  then show ?case by (cases u) auto
qed

lemma keycmp_sym_aux: "keycmp ascs u v + keycmp ascs v u = 0"
proof (induction ascs arbitrary: u v)
  case Nil
  then show ?case by simp
next
  case (Cons asc ascs)
  show ?case
  proof (cases u)
    case Nil
    then show ?thesis by (cases v) simp_all
  next
    case u: (Cons a u')
    show ?thesis
    proof (cases v)
      case Nil
      then show ?thesis by (simp add: u)
    next
      case v: (Cons b v')
      show ?thesis
      proof (cases "a = b")
        case True
        then show ?thesis using Cons.IH[of u' v'] by (simp add: u v)
      next
        case False
        then have "a < b \<or> b < a" by auto
        then show ?thesis using False by (auto simp: u v)
      qed
    qed
  qed
qed

lemma keycmp_sym: "keycmp ascs v u = - keycmp ascs u v"
  using keycmp_sym_aux[of ascs u v] by simp

lemma keycmp_zero:
  "length u = length ascs \<Longrightarrow> length v = length ascs \<Longrightarrow> (keycmp ascs u v = 0) = (u = v)"
proof (induction ascs arbitrary: u v)
  case Nil
  then show ?case by simp
next
  case (Cons asc ascs)
  then show ?case by (cases u; cases v) auto
qed

lemma keycmp_trans:
  "length u = length ascs \<Longrightarrow> length v = length ascs \<Longrightarrow> length w = length ascs \<Longrightarrow>
   keycmp ascs u v \<le> 0 \<Longrightarrow> keycmp ascs v w \<le> 0 \<Longrightarrow> keycmp ascs u w \<le> 0"
proof (induction ascs arbitrary: u v w)
  case Nil
  then show ?case by simp
next
  case (Cons asc ascs)
  from Cons.prems(1) obtain a u' where u: "u = a # u'" by (cases u) auto
  from Cons.prems(2) obtain b v' where v: "v = b # v'" by (cases v) auto
  from Cons.prems(3) obtain c w' where w: "w = c # w'" by (cases w) auto
  have ih: "keycmp ascs u' v' \<le> 0 \<Longrightarrow> keycmp ascs v' w' \<le> 0 \<Longrightarrow> keycmp ascs u' w' \<le> 0"
    using Cons.IH[of u' v' w'] Cons.prems(1,2,3) u v w by simp
  show ?case
  proof (cases "a = b")
    case ab: True
    show ?thesis
    proof (cases "b = c")
      case True
      with ab Cons.prems(4,5) ih u v w show ?thesis by simp
    next
      case False
      with ab Cons.prems(5) u v w show ?thesis by simp
    qed
  next
    case ab: False
    show ?thesis
    proof (cases "b = c")
      case True
      with ab Cons.prems(4) u v w show ?thesis by simp
    next
      case bc: False
      from ab Cons.prems(4) u v have 1: "(asc \<and> a < b) \<or> (\<not> asc \<and> b < a)"
        by (simp split: if_splits)
      from bc Cons.prems(5) v w have 2: "(asc \<and> b < c) \<or> (\<not> asc \<and> c < b)"
        by (simp split: if_splits)
      from 1 2 have "(asc \<and> a < c) \<or> (\<not> asc \<and> c < a)" by auto
      then show ?thesis using u w by auto
    qed
  qed
qed

lemma mycmp_kc: "resolves fos a \<Longrightarrow> resolves fos b \<Longrightarrow> mycmp fos a b = Inr (composite_cmp fos a b)"
  unfolding composite_cmp_def by (rule mycmp_keycmp)

lemma kc_refl: "composite_cmp fos a a = 0"
  by (simp add: composite_cmp_def keycmp_refl)

lemma kc_sym: "composite_cmp fos b a = - composite_cmp fos a b"
  unfolding composite_cmp_def by (rule keycmp_sym)

lemma kc_trans: "composite_cmp fos a b \<le> 0 \<Longrightarrow> composite_cmp fos b c \<le> 0 \<Longrightarrow> composite_cmp fos a c \<le> 0"
  unfolding composite_cmp_def by (rule keycmp_trans) simp_all

lemma kc_zero_cong: "composite_cmp fos a b = 0 \<Longrightarrow> composite_cmp fos a c = composite_cmp fos b c"
proof -
  assume "composite_cmp fos a b = 0"
  then have eq: "map (\<lambda>fo. order_key fo a) fos = map (\<lambda>fo. order_key fo b) fos"
    unfolding composite_cmp_def by (subst (asm) keycmp_zero) simp_all
  show ?thesis unfolding composite_cmp_def eq ..
qed

lemma insort_cmp_ins:
  "resolves fos x \<Longrightarrow> list_all (resolves fos) ys \<Longrightarrow>
   insort_cmp (mycmp fos) x ys = Inr (stable_insert fos x ys)"
proof (induction ys)
  case Nil
  then show ?case by (simp add: stable_insert_def)
next
  case (Cons y ys)
  then have "mycmp fos y x = Inr (composite_cmp fos y x)" by (simp add: mycmp_kc)
  moreover have "insort_cmp (mycmp fos) x ys = Inr (stable_insert fos x ys)" using Cons by simp
  ultimately show ?case by (simp add: stable_insert_def)
qed

lemma set_ins: "set (stable_insert fos x ys) = insert x (set ys)"
proof -
  have "set ys = set (takeWhile (\<lambda>y. composite_cmp fos y x < 0) ys) \<union> set (dropWhile (\<lambda>y. composite_cmp fos y x < 0) ys)"
    by (metis set_append takeWhile_dropWhile_id)
  then show ?thesis by (auto simp: stable_insert_def)
qed

lemma mset_ins: "mset (stable_insert fos x ys) = add_mset x (mset ys)"
proof -
  have "mset ys = mset (takeWhile (\<lambda>y. composite_cmp fos y x < 0) ys) + mset (dropWhile (\<lambda>y. composite_cmp fos y x < 0) ys)"
    by (metis mset_append takeWhile_dropWhile_id)
  then show ?thesis by (simp add: stable_insert_def)
qed

lemma set_isort: "set (stable_sort fos xs) = set xs"
  by (induction xs) (simp_all add: stable_sort_def set_ins)

lemma mset_isort: "mset (stable_sort fos xs) = mset xs"
  by (induction xs) (simp_all add: stable_sort_def mset_ins)

lemma py_sort_isort:
  "list_all (resolves fos) xs \<Longrightarrow> py_sort (mycmp fos) xs = Inr (stable_sort fos xs)"
proof (induction xs)
  case Nil
  then show ?case by (simp add: stable_sort_def)
next
  case (Cons x xs)
  then have 1: "py_sort (mycmp fos) xs = Inr (stable_sort fos xs)" by simp
  have "list_all (resolves fos) (stable_sort fos xs)"
    using Cons.prems by (simp add: list_all_iff set_isort)
  from insort_cmp_ins[OF _ this, of x] Cons.prems
  have "insort_cmp (mycmp fos) x (stable_sort fos xs) = Inr (stable_insert fos x (stable_sort fos xs))" by simp
  with 1 show ?case by (simp add: stable_sort_def)
qed

lemma sorted_ins:
  assumes "sorted_wrt (\<lambda>a b. composite_cmp fos a b \<le> 0) ys"
  shows "sorted_wrt (\<lambda>a b. composite_cmp fos a b \<le> 0) (stable_insert fos x ys)"
proof -
  let ?P = "\<lambda>y. composite_cmp fos y x < 0"
  let ?t = "takeWhile ?P ys" and ?d = "dropWhile ?P ys"
  have ys: "ys = ?t @ ?d" by simp
  have s: "sorted_wrt (\<lambda>a b. composite_cmp fos a b \<le> 0) (?t @ ?d)" using assms by simp
  have st: "sorted_wrt (\<lambda>a b. composite_cmp fos a b \<le> 0) ?t" and sd: "sorted_wrt (\<lambda>a b. composite_cmp fos a b \<le> 0) ?d"
    and td: "\<forall>a \<in> set ?t. \<forall>b \<in> set ?d. composite_cmp fos a b \<le> 0"
    using s unfolding sorted_wrt_append by auto
  have tx: "\<forall>a \<in> set ?t. composite_cmp fos a x \<le> 0"
    using set_takeWhileD[of _ ?P ys] by fastforce
  have xd: "\<forall>b \<in> set ?d. composite_cmp fos x b \<le> 0"
  proof (cases ?d)
    case Nil
    then show ?thesis by (simp del: dropWhile_eq_Nil_conv)
  next
    case (Cons h d')
    then have "\<not> ?P h" using hd_dropWhile[of ?P ys] by (metis list.sel(1) list.distinct(1))
    then have xh: "composite_cmp fos x h \<le> 0" using kc_sym[of fos x h] by simp
    have "\<forall>b \<in> set d'. composite_cmp fos h b \<le> 0" using sd Cons by simp
    then have "\<forall>b \<in> set d'. composite_cmp fos x b \<le> 0" using xh kc_trans by blast
    then show ?thesis using xh Cons by simp
  qed
  show ?thesis
    unfolding stable_insert_def sorted_wrt_append using st sd td tx xd by auto
qed

lemma sorted_isort: "sorted_wrt (\<lambda>a b. composite_cmp fos a b \<le> 0) (stable_sort fos xs)"
  by (induction xs) (simp_all add: stable_sort_def sorted_ins)

lemma filter_ins:
  "filter (\<lambda>b. composite_cmp fos a b = 0) (stable_insert fos x ys) =
     (if composite_cmp fos a x = 0 then x # filter (\<lambda>b. composite_cmp fos a b = 0) ys
      else filter (\<lambda>b. composite_cmp fos a b = 0) ys)"
proof -
  let ?P = "\<lambda>y. composite_cmp fos y x < 0" and ?E = "\<lambda>b. composite_cmp fos a b = 0"
  have split: "filter ?E ys = filter ?E (takeWhile ?P ys) @ filter ?E (dropWhile ?P ys)"
    by (metis filter_append takeWhile_dropWhile_id)
  show ?thesis
  proof (cases "composite_cmp fos a x = 0")
    case True
    have "\<forall>y \<in> set (takeWhile ?P ys). \<not> ?E y"
    proof
      fix y assume "y \<in> set (takeWhile ?P ys)"
      then have lt: "composite_cmp fos y x < 0" using set_takeWhileD by fastforce
      show "\<not> ?E y"
      proof
        assume "composite_cmp fos a y = 0"
        then have "composite_cmp fos a x = composite_cmp fos y x" by (rule kc_zero_cong)
        with True lt show False by simp
      qed
    qed
    then have "filter ?E (takeWhile ?P ys) = []" by (simp add: filter_empty_conv)
    then show ?thesis using True split by (simp add: stable_insert_def)
  next
    case False
    then show ?thesis using split by (simp add: stable_insert_def)
  qed
qed

lemma filter_isort:
  "filter (\<lambda>b. composite_cmp fos a b = 0) (stable_sort fos xs) = filter (\<lambda>b. composite_cmp fos a b = 0) xs"
proof (induction xs)
  case Nil
  then show ?case by (simp add: stable_sort_def)
next
  case (Cons x xs)
  have "stable_sort fos (x # xs) = stable_insert fos x (stable_sort fos xs)" by (simp add: stable_sort_def)
  then show ?case using Cons by (simp add: filter_ins)
qed

lemma sorted_unique:
  assumes "sorted_wrt (\<lambda>a b. composite_cmp fos a b \<le> 0) ys" "sorted_wrt (\<lambda>a b. composite_cmp fos a b \<le> 0) zs"
    and "mset ys = mset zs"
    and "\<And>a b. a \<in> set ys \<Longrightarrow> b \<in> set ys \<Longrightarrow> composite_cmp fos a b = 0 \<Longrightarrow> a = b"
  shows "ys = zs"
  using assms
proof (induction ys arbitrary: zs)
  case Nil
  then show ?case by simp
next
  case (Cons y ys)
  then obtain z zs' where zs: "zs = z # zs'" by (cases zs) auto
  have sets: "set (y # ys) = set (z # zs')" using Cons.prems(3) zs by (metis mset_eq_setD)
  have yz: "y = z"
  proof (rule ccontr)
    assume ne: "y \<noteq> z"
    then have "y \<in> set zs'" "z \<in> set ys" using sets by auto
    then have "composite_cmp fos z y \<le> 0" "composite_cmp fos y z \<le> 0" using Cons.prems(1,2) zs by auto
    then have "composite_cmp fos y z = 0" using kc_sym[of fos z y] by simp
    moreover have "z \<in> set (y # ys)" using sets by simp
    ultimately show False using Cons.prems(4)[of y z] ne by simp
  qed
  have "ys = zs'"
  proof (rule Cons.IH)
    show "sorted_wrt (\<lambda>a b. composite_cmp fos a b \<le> 0) ys" using Cons.prems(1) by simp
    show "sorted_wrt (\<lambda>a b. composite_cmp fos a b \<le> 0) zs'" using Cons.prems(2) zs by simp
    show "mset ys = mset zs'" using Cons.prems(3) zs yz by simp
    show "\<And>a b. a \<in> set ys \<Longrightarrow> b \<in> set ys \<Longrightarrow> composite_cmp fos a b = 0 \<Longrightarrow> a = b"
      using Cons.prems(4) by simp
  qed
  then show ?case using yz zs by simp
qed

lemma distinct_rev_eq:
  assumes "distinct l" and "l = rev l"
  shows "length l \<le> 1"
proof (cases l)
  case Nil
  then show ?thesis by simp
next
  case (Cons x t)
  show ?thesis
  proof (cases t)
    case Nil
    then show ?thesis using Cons by simp
  next
    case (Cons y u)
    then have ne: "t \<noteq> []" by simp
    have nl: "l \<noteq> []" using \<open>l = x # t\<close> by simp
    have "hd l = hd (rev l)" using assms(2) by simp
    also have "\<dots> = last l" using nl by (simp add: hd_rev)
    finally have "x = last l" using \<open>l = x # t\<close> by simp
    then have "x = last t" using \<open>l = x # t\<close> ne by simp
    then have "x \<in> set t" using ne last_in_set by metis
    then show ?thesis using assms(1) \<open>l = x # t\<close> by simp
  qed
qed

section \<open>A query before and after its records are removed\<close>






















section \<open>Results on orm.py\<close>


text \<open>
  C3. The simplified condition evaluates to the same boolean as the original, for every
  record and binding. \<open>BoolComparator.simplified\<close> drops a statically false argument of
  \<open>and\<close> (and a statically true one of \<open>or\<close>) instead of returning it: the condition
  \<open>and_(F.anum != F.anum, F.anum == 1)\<close> is false on every fact, and its simplified form
  \<open>F.anum == 1\<close> is true on \<open>F(1,"a")\<close>.
\<close>

theorem simplified_and_drops_static_False:
  "comparator_call sch_F
     (BoolComparator AndOp
        [FieldQueryComparator Ne F_anum (FieldArg F_anum),
         FieldQueryComparator Eq F_anum (Lit (IntV 1))])
     (F 1 ''a'') [] Map.empty = Inr False
   \<and> simplify_fact_comparator
     (BoolComparator AndOp
        [FieldQueryComparator Ne F_anum (FieldArg F_anum),
         FieldQueryComparator Eq F_anum (Lit (IntV 1))])
     = FieldQueryComparator Eq F_anum (Lit (IntV 1))
   \<and> comparator_call sch_F
     (simplify_fact_comparator
        (BoolComparator AndOp
           [FieldQueryComparator Ne F_anum (FieldArg F_anum),
            FieldQueryComparator Eq F_anum (Lit (IntV 1))]))
     (F 1 ''a'') [] Map.empty = Inr True"
  by (simp add: fqc_call_def fqc_value_def F_anum_def F_def FieldPathEval_def predicate_def
      tryconv_def)

text \<open>
  C1. Through the index, the comparison \<open>P op v\<close> selects the records a full scan selects.
  \<open>_keys_gt\<close>, \<open>_keys_ge\<close> and the right half of \<open>_keys_ne\<close> return no key when the
  bisection position is \<open>0\<close>, that is when \<open>v\<close> is below every key (\<open>if posn\<close>): with
  the one fact \<open>F(5,"a")\<close> indexed on \<open>F.anum\<close>, \<open>where(F.anum > 3)\<close> finds nothing through
  the index, and \<open>F(5,"a")\<close> by the scan. The first two conjuncts show that the two
  select objects and the indexed fact map are the ones the code builds.
\<close>

theorem index_find_gt_below_all_keys:
  "u_FactMap_add \<lparr>ptype = ''F'', allfacts = [], findexes = [(F_anum, new_FactIndex F_anum)]\<rparr>
     (F 5 ''a'') = (None, fm_F5_indexed)
   \<and> u_Select_where fm_F5_indexed new_Select [FieldQueryComparator Gt F_anum (Lit (IntV 3))]
       = Inr sel_gt3_indexed
   \<and> u_Select_where fm_F5 new_Select [FieldQueryComparator Gt F_anum (Lit (IntV 3))]
       = Inr sel_gt3
   \<and> u_FactIndex_find ix_F5 Gt (IntV 3) = Inr []
   \<and> u_FactIndex_find ix_F5 Ge (IntV 3) = Inr []
   \<and> u_FactIndex_find ix_F5 Ne (IntV 3) = Inr []
   \<and> u_Select_get sch_F fm_F5_indexed sel_gt3_indexed [] Map.empty = Inr []
   \<and> u_Select_get sch_F fm_F5 sel_gt3 [] Map.empty = Inr [F 5 ''a'']"
  by (simp add: u_FactMap_add_def u_FactIndex_add_def new_FactIndex_def isinstance_predicate_def
      F_anum_def F_def FieldPathEval_def predicate_def set_add_def bisect_left_def
      bisect_right_def bisect_left_loop.simps bisect_right_loop.simps insort_left_def
      fm_F5_indexed_def ix_F5_def fm_F5_def sel_gt3_def
      sel_gt3_indexed_def u_Select_where_def new_Select_def index_priority_def indexes_def
      u_FactIndex_find_def keys_gt_def keys_ge_def keys_ne_def u_Select_get_def
      get_unsorted_def resolve_arguments_def get_factindex_def index_value_def defn_def
      fqc_call_def tryconv_def less_val_def less_eq_val_def)

text \<open>
  C8. For a where condition, the pre-filter \<open>_primary_search\<close> chooses is a comparison
  (field path, operator, value) among the candidates of the condition, its field path has
  a declared index, and no candidate has a path declared earlier; there is no pre-filter
  exactly when there is no candidate. The second part states it of the select object
  \<open>where\<close> returns, for the simplified condition it stores. The indexes of a fact map
  are distinct paths, the keys of a dictionary.
\<close>

theorem primary_search_earliest_index:
  assumes "distinct ixs"
  shows "(\<exists>r. primary_search (index_priority ixs) w = Inr r
            \<and> earliest_candidate ixs (candidate_leaves ixs w) r)
       \<and> (\<forall>sel. indexes fm = ixs \<and> u_Select_where fm new_Select es = Inr sel \<longrightarrow>
            (\<exists>w'. s_where sel = Some w'
               \<and> earliest_candidate ixs (candidate_leaves ixs w') (s_indexable sel)))"
proof -
  have 1: "\<And>w. \<exists>r. primary_search (index_priority ixs) w = Inr r
            \<and> earliest_candidate ixs (candidate_leaves ixs w) r"
    by (rule primary_search_earliest_aux[OF assms])
  have 2: "\<exists>w'. s_where sel = Some w'
               \<and> earliest_candidate ixs (candidate_leaves ixs w') (s_indexable sel)"
    if a: "indexes fm = ixs" "u_Select_where fm new_Select es = Inr sel" for sel
  proof -
    define w' where "w' = (if length es = 1 then simplify_fact_comparator (hd es)
                  else simplify_fact_comparator (BoolComparator AndOp es))"
    from 1[of w'] obtain r where r: "primary_search (index_priority ixs) w' = Inr r"
      and e: "earliest_candidate ixs (candidate_leaves ixs w') r" by blast
    have "sel = new_Select\<lparr>s_where := Some w', s_indexable := r\<rparr>"
      using a r unfolding u_Select_where_def Let_def w'_def[symmetric]
      by (auto simp: new_Select_def split: if_splits)
    then show ?thesis using e by auto
  qed
  from 1 2 show ?thesis by blast
qed

theorem primary_search_earliest_index_witness:
  "distinct [F_anum, F_astr]
   \<and> primary_search (index_priority [F_anum, F_astr]) where_astr_anum
       = Inr (Some (F_anum, Eq, Lit (IntV 1)))
   \<and> candidate_leaves [F_anum, F_astr] where_astr_anum
       = [(F_astr, Eq, Lit (StrV ''a'')), (F_anum, Eq, Lit (IntV 1))]
   \<and> earliest_candidate [F_anum, F_astr] (candidate_leaves [F_anum, F_astr] where_astr_anum)
       (Some (F_anum, Eq, Lit (IntV 1)))"
proof -
  have d: "distinct [F_anum, F_astr]" by (simp add: F_anum_def F_astr_def)
  have p: "primary_search (index_priority [F_anum, F_astr]) where_astr_anum
       = Inr (Some (F_anum, Eq, Lit (IntV 1)))"
    by (simp add: where_astr_anum_def index_priority_def F_anum_def F_astr_def)
  have c: "candidate_leaves [F_anum, F_astr] where_astr_anum
       = [(F_astr, Eq, Lit (StrV ''a'')), (F_anum, Eq, Lit (IntV 1))]"
    by (simp add: where_astr_anum_def)
  from primary_search_earliest_index[OF d, of where_astr_anum] p
  have "earliest_candidate [F_anum, F_astr] (candidate_leaves [F_anum, F_astr] where_astr_anum)
       (Some (F_anum, Eq, Lit (IntV 1)))" by auto
  with d p c show ?thesis by blast
qed

text \<open>
  C6. \<open>fb.remove(f)\<close> deletes a present fact and raises for an absent one, \<open>fb.discard(f)\<close>
  deletes a present fact and does nothing for an absent one. \<open>FactBase._remove\<close>, which
  both call, reads the unbound name \<open>arg\<close>: for every fact base and every fact both
  operations raise \<open>NameError\<close> and leave the fact base as it was, so a present fact
  stays.
\<close>

theorem FactBase_remove_NameError:
  "FactBase_remove fb f = (Inl NameError, fb) \<and> FactBase_discard fb f = (Inl NameError, fb)
   \<and> FactBase_contains \<lparr>factmaps = [(''F'', fm_F5)]\<rparr> (F 5 ''a'')
   \<and> FactBase_contains
       (snd (FactBase_remove \<lparr>factmaps = [(''F'', fm_F5)]\<rparr> (F 5 ''a''))) (F 5 ''a'')"
  by (simp add: FactBase_remove_def FactBase_discard_def FactBase_u_remove_def
      u_remove_names_def FactBase_contains_def fm_F5_def F_def)

text \<open>
  C7. The results of a query with an ordering, in particular one over multiple keys,
  are sorted by a stable composite comparator. On facts of the predicate of the
  ordering, \<open>_Select.get\<close> returns without exception a permutation of the records it
  selected, \<open>mycmp\<close> is the composite comparator in which the first differing key
  decides, the result is sorted by it, and the records equal to a given one on all keys
  keep their relative order. The reversed sequence is sorted into the sequence in which
  the records equal on all keys come in the reversed relative order; for a sequence
  without duplicates, that is the identical result if and only if no two distinct
  records are equal on all keys.
\<close>

theorem order_by_stable_sort:
  assumes "get_unsorted sch fm sel args kw = Inr xs"
    and "s_key sel = Some fos"
    and "list_all (resolves fos) xs"
  shows "\<exists>ys ys'. u_Select_get sch fm sel args kw = Inr ys
     \<and> py_sort (mycmp fos) xs = Inr ys
     \<and> py_sort (mycmp fos) (rev xs) = Inr ys'
     \<and> mset ys = mset xs
     \<and> (\<forall>a \<in> set xs. \<forall>b \<in> set xs. mycmp fos a b = Inr (composite_cmp fos a b))
     \<and> sorted_wrt (\<lambda>a b. composite_cmp fos a b \<le> 0) ys
     \<and> (\<forall>a. filter (\<lambda>b. composite_cmp fos a b = 0) ys
              = filter (\<lambda>b. composite_cmp fos a b = 0) xs)
     \<and> (\<forall>a. filter (\<lambda>b. composite_cmp fos a b = 0) ys'
              = rev (filter (\<lambda>b. composite_cmp fos a b = 0) ys))
     \<and> (distinct xs \<longrightarrow>
          (ys' = ys) = (\<forall>a \<in> set xs. \<forall>b \<in> set xs. composite_cmp fos a b = 0 \<longrightarrow> a = b))"
proof -
  let ?ys = "stable_sort fos xs" and ?ys' = "stable_sort fos (rev xs)"
  have r: "list_all (resolves fos) (rev xs)" using assms(3) by (simp add: list_all_iff)
  have 1: "py_sort (mycmp fos) xs = Inr ?ys" by (rule py_sort_isort[OF assms(3)])
  have 8: "py_sort (mycmp fos) (rev xs) = Inr ?ys'" by (rule py_sort_isort[OF r])
  have 0: "u_Select_get sch fm sel args kw = Inr ?ys"
    by (simp add: u_Select_get_def assms(1,2) 1)
  have 2: "mset ?ys = mset xs" by (rule mset_isort)
  have 3: "\<forall>a \<in> set xs. \<forall>b \<in> set xs. mycmp fos a b = Inr (composite_cmp fos a b)"
    using assms(3) by (simp add: list_all_iff mycmp_kc)
  have 4: "sorted_wrt (\<lambda>a b. composite_cmp fos a b \<le> 0) ?ys" by (rule sorted_isort)
  have 5: "\<forall>a. filter (\<lambda>b. composite_cmp fos a b = 0) ?ys
              = filter (\<lambda>b. composite_cmp fos a b = 0) xs"
    by (simp add: filter_isort)
  have 6: "\<forall>a. filter (\<lambda>b. composite_cmp fos a b = 0) ?ys'
              = rev (filter (\<lambda>b. composite_cmp fos a b = 0) ?ys)"
    by (simp add: filter_isort rev_filter)
  have 7: "distinct xs \<longrightarrow>
          (?ys' = ?ys) = (\<forall>a \<in> set xs. \<forall>b \<in> set xs. composite_cmp fos a b = 0 \<longrightarrow> a = b)"
  proof (intro impI iffI)
    assume noties: "\<forall>a \<in> set xs. \<forall>b \<in> set xs. composite_cmp fos a b = 0 \<longrightarrow> a = b"
    show "?ys' = ?ys"
    proof (rule sorted_unique)
      show "sorted_wrt (\<lambda>a b. composite_cmp fos a b \<le> 0) ?ys'" by (rule sorted_isort)
      show "sorted_wrt (\<lambda>a b. composite_cmp fos a b \<le> 0) ?ys" by (rule sorted_isort)
      show "mset ?ys' = mset ?ys" by (simp add: mset_isort)
      show "\<And>a b. a \<in> set ?ys' \<Longrightarrow> b \<in> set ?ys' \<Longrightarrow> composite_cmp fos a b = 0 \<Longrightarrow> a = b"
        using noties by (simp add: set_isort)
    qed
  next
    assume d: "distinct xs" and eq: "?ys' = ?ys"
    show "\<forall>a \<in> set xs. \<forall>b \<in> set xs. composite_cmp fos a b = 0 \<longrightarrow> a = b"
    proof (intro ballI impI)
      fix a b assume a: "a \<in> set xs" and b: "b \<in> set xs" and t: "composite_cmp fos a b = 0"
      let ?l = "filter (\<lambda>c. composite_cmp fos a c = 0) xs"
      have "?l = rev ?l" using 5 6 eq by metis
      moreover have "distinct ?l" using d by simp
      ultimately have len: "length ?l \<le> 1" using distinct_rev_eq by blast
      have "a \<in> set ?l" "b \<in> set ?l" using a b t by (simp_all add: kc_refl)
      then show "a = b" using len
        by (cases ?l) (auto split: if_splits)
    qed
  qed
  from 0 1 8 2 3 4 5 6 7 show ?thesis by blast
qed

lemma kc_F:
  "composite_cmp order_desc_asc (F n s) (F m t) = 0 \<longrightarrow> F n s = F m t"
  by (simp add: composite_cmp_def order_desc_asc_def F_def F_anum_def F_astr_def FieldPathEval_def
      predicate_def)

theorem order_by_stable_sort_witness:
  "get_unsorted sch_F (fm_facts facts4) (sel_order order_desc_asc) [] Map.empty = Inr facts4
   \<and> list_all (resolves order_desc_asc) facts4
   \<and> distinct facts4
   \<and> u_Select_get sch_F (fm_facts facts4) (sel_order order_desc_asc) [] Map.empty
       = Inr [F 3 ''a'', F 2 ''c'', F 1 ''a'', F 1 ''b'']
   \<and> py_sort (mycmp order_desc_asc) (rev facts4) = Inr [F 3 ''a'', F 2 ''c'', F 1 ''a'', F 1 ''b'']"
proof -
  have g: "get_unsorted sch_F (fm_facts facts4) (sel_order order_desc_asc) [] Map.empty = Inr facts4"
    by (simp add: get_unsorted_def resolve_arguments_def sel_order_def fm_facts_def)
  have k: "s_key (sel_order order_desc_asc) = Some order_desc_asc" by (simp add: sel_order_def)
  have r: "list_all (resolves order_desc_asc) facts4"
    by (simp add: facts4_def resolves_def order_desc_asc_def F_def F_anum_def F_astr_def
        FieldPathEval_def predicate_def defn_def)
  have d: "distinct facts4" by (simp add: facts4_def F_def)
  have n: "\<forall>a \<in> set facts4. \<forall>b \<in> set facts4. composite_cmp order_desc_asc a b = 0 \<longrightarrow> a = b"
    using kc_F by (simp add: facts4_def)
  have p: "py_sort (mycmp order_desc_asc) facts4 = Inr [F 3 ''a'', F 2 ''c'', F 1 ''a'', F 1 ''b'']"
    by (simp add: facts4_def order_desc_asc_def F_def F_anum_def F_astr_def FieldPathEval_def
        predicate_def less_val_def)
  from order_by_stable_sort[OF g k r] obtain ys ys' where
    a: "u_Select_get sch_F (fm_facts facts4) (sel_order order_desc_asc) [] Map.empty = Inr ys"
    and b: "py_sort (mycmp order_desc_asc) facts4 = Inr ys"
    and c: "py_sort (mycmp order_desc_asc) (rev facts4) = Inr ys'"
    and e: "distinct facts4 \<longrightarrow> (ys' = ys) =
        (\<forall>a \<in> set facts4. \<forall>b \<in> set facts4. composite_cmp order_desc_asc a b = 0 \<longrightarrow> a = b)"
    by blast
  have ys: "ys = [F 3 ''a'', F 2 ''c'', F 1 ''a'', F 1 ''b'']" using b p by simp
  have "ys' = ys" using e d n by blast
  with a c ys g r d show ?thesis by simp
qed

text \<open>
  Two distinct records equal on both keys of an ordering keep the order they come in, so
  that the reversed sequence is sorted into another result: \<open>H(1,"a","x")\<close> and
  \<open>H(1,"a","y")\<close> ordered by \<open>H.anum\<close> descending, then \<open>H.astr\<close> ascending.
\<close>

theorem order_by_two_keys_reversed_ties:
  "u_Select_order_by new_Select order_H = Inr (sel_order order_H)
   \<and> u_Select_get sch_H (fm_H [H_fact 1 ''a'' ''x'', H_fact 1 ''a'' ''y'']) (sel_order order_H)
       [] Map.empty = Inr [H_fact 1 ''a'' ''x'', H_fact 1 ''a'' ''y'']
   \<and> u_Select_get sch_H (fm_H (rev [H_fact 1 ''a'' ''x'', H_fact 1 ''a'' ''y''])) (sel_order order_H)
       [] Map.empty = Inr [H_fact 1 ''a'' ''y'', H_fact 1 ''a'' ''x'']
   \<and> py_sort (mycmp order_H) [H_fact 1 ''a'' ''x'', H_fact 1 ''a'' ''y'']
       = Inr [H_fact 1 ''a'' ''x'', H_fact 1 ''a'' ''y'']
   \<and> py_sort (mycmp order_H) (rev [H_fact 1 ''a'' ''x'', H_fact 1 ''a'' ''y''])
       = Inr [H_fact 1 ''a'' ''y'', H_fact 1 ''a'' ''x'']"
  by (simp add: u_Select_order_by_def new_Select_def u_Select_get_def get_unsorted_def
      resolve_arguments_def sel_order_def fm_H_def order_H_def
      H_fact_def H_anum_def H_astr_def FieldPathEval_def predicate_def)





text \<open>
  C10. When the left path of a comparison resolves to a complex term and the right-hand
  side is a tuple, the scan and the indexed lookup convert the tuple to the complex
  term, and a right-hand side that cannot be converted raises \<open>TypeError\<close>. The indexed
  lookup of \<open>_Select.get\<close> converts outside any \<open>try\<close> and checks nothing else: on the fact
  \<open>G(P(1,2))\<close>, \<open>where(G.apair == (1,))\<close> raises the \<open>ValueError\<close> of the constructor through
  the index and \<open>TypeError\<close> by the scan, and \<open>where(G.apair == 5)\<close> returns no fact through
  the index and raises \<open>TypeError\<close> by the scan. The first two conjuncts show that the
  select objects are the ones the code builds.
\<close>

theorem indexed_lookup_conversion_error:
  "u_Select_where fm_G12 new_Select [FieldQueryComparator Eq G_apair (Lit (TupV [IntV 1]))]
     = Inr (sel_apair Eq (TupV [IntV 1]))
   \<and> u_Select_where fm_G12_indexed new_Select [FieldQueryComparator Eq G_apair (Lit (TupV [IntV 1]))]
     = Inr (sel_apair_indexed Eq (TupV [IntV 1]))
   \<and> u_Select_get sch_G fm_G12 (sel_apair Eq (TupV [IntV 1])) [] Map.empty = Inl TypeError
   \<and> u_Select_get sch_G fm_G12_indexed (sel_apair_indexed Eq (TupV [IntV 1])) [] Map.empty
     = Inl (ValueError ''Expected a different number of arguments'')
   \<and> u_Select_get sch_G fm_G12 (sel_apair Eq (IntV 5)) [] Map.empty = Inl TypeError
   \<and> u_Select_get sch_G fm_G12_indexed (sel_apair_indexed Eq (IntV 5)) [] Map.empty = Inr []"
  by (simp add: u_Select_where_def new_Select_def sel_apair_def sel_apair_indexed_def
      index_priority_def indexes_def fm_G12_def fm_G12_indexed_def ix_G12_def
      u_Select_get_def get_unsorted_def resolve_arguments_def get_factindex_def
      index_value_def defn_def G_apair_def construct_from_def sch_G_def
      u_FactIndex_find_def keys_eq_def fqc_call_def FieldPathEval_def predicate_def
      tryconv_def G_fact_def P_term_def)

section \<open>Results on factbase.py\<close>

text \<open>
  C5. \<open>singleton()\<close>/\<open>get_unique()\<close> return the unique result when there is exactly one,
  raise when there is more than one, and raise when there is none, never returning a
  default silently. \<open>QueryImpl.singleton\<close> and \<open>SelectImpl.get_unique\<close> do not raise on
  an empty result: the loop body never runs and \<open>found\<close>, still \<open>None\<close>, is returned.
  The test \<open>if found\<close> also misses a second result when the first one is falsy (the
  projected value \<open>0\<close>): the second result is returned.
\<close>

theorem singleton_no_result_returns_None:
  "QueryImpl_singleton \<lparr>roots = 1, join_given = False\<rparr> [] = Inr None
   \<and> SelectImpl_get_unique [] = Inr None
   \<and> QueryImpl_singleton \<lparr>roots = 1, join_given = False\<rparr> [IntV 0, IntV 5] = Inr (Some (IntV 5))"
  by (simp add: QueryImpl_singleton_def SelectImpl_get_unique_def check_join_called_first_def)

text \<open>
  C9. \<open>a.symmetric_difference(b)\<close> holds, per record type, the facts in exactly one of \<open>a\<close>
  and \<open>b\<close>, also when a type has facts in only one of the two. For a type that only \<open>a\<close>
  has, the loop body reads \<open>other._factmaps[p]\<close> and raises \<open>KeyError\<close>; the in-place
  sibling \<open>symmetric_difference_update\<close> keeps the facts of \<open>a\<close> on the same input.
\<close>

theorem symmetric_difference_left_only_KeyError:
  "symmetric_difference
     [(''Afact'', \<lparr>fm_predicate = ''Afact'', factset = [NlsV ''Afact'' [IntV 1]], fm_indexes = []\<rparr>)]
     [] = Inl KeyError
   \<and> facts_of (symmetric_difference_update
     [(''Afact'', \<lparr>fm_predicate = ''Afact'', factset = [NlsV ''Afact'' [IntV 1]], fm_indexes = []\<rparr>)]
     []) ''Afact'' = {NlsV ''Afact'' [IntV 1]}"
  by (simp add: symmetric_difference_def symmetric_difference_step_def dict_keys_def
      FactMap_copy_def symmetric_difference_update_def symmetric_difference_update_step_def
      facts_of_def)

end
